theory Spec2Isabelle
  imports Main "HOL-Library.Word" "HOL-Library.Multiset"
begin

unbundle bit_operations_syntax

section \<open>PCR7 prediction and TPM re-binding of incus-osd (internal/secureboot/pcrs.go)\<close>

text \<open>
  A shallow embedding of \<^verbatim>\<open>incus-osd/internal/secureboot/pcrs.go\<close>. Go byte slices are
  lists of 8-bit words, Go strings are \<^typ>\<open>string\<close>, every \<^verbatim>\<open>(value, error)\<close> result is a
  sum with the error on the left, and a Go run-time panic is the error value \<open>Panic\<close>.
  Functions of other packages (the TCG event-log library, \<^verbatim>\<open>debug/pe\<close>, PKCS7, X.509, the
  files and EFI variables of the machine) are fields of an environment record; SHA-256 is
  written out after FIPS 180-4.
\<close>

type_synonym byte = "8 word"
type_synonym bytes = "byte list"

subsection \<open>Errors\<close>

datatype cert_site = InVariableAuthority | InPE string

datatype pe_reason = Not64bit | NotValid

datatype error =
    SecureBootDisabled
  | NoRecoveryNeeded
  | ShortPCR7Read nat
  | UnexpectedCertificateCount cert_site nat
  | NotASignedPEBinary pe_reason string
  | ShortCertificateRead nat int string
  | ExpectedCertificateNotInDB string
  | CertificateSizeMismatch nat nat
  | EOF
  | ErrUnexpectedEOF
  | InvalidByteError byte
  | ErrLength
  | ExternalError string
  | Panic string

subsection \<open>SHA-256 (crypto/sha256), after FIPS 180-4\<close>

text \<open>
  32-bit words are integers in \<open>[0, 2^32)\<close>; addition is reduced modulo \<open>2^32\<close>, rotation
  and complement are written out on that range.
\<close>

definition add32 :: "int \<Rightarrow> int \<Rightarrow> int" where
  "add32 a b = (a + b) mod 4294967296"

definition rotr :: "nat \<Rightarrow> int \<Rightarrow> int" where
  "rotr n x = x div 2 ^ n + (x mod 2 ^ n) * 2 ^ (32 - n)"

definition not32 :: "int \<Rightarrow> int" where
  "not32 x = 4294967295 - x"

definition bsig0 :: "int \<Rightarrow> int" where
  "bsig0 x = rotr 2 x XOR rotr 13 x XOR rotr 22 x"

definition bsig1 :: "int \<Rightarrow> int" where
  "bsig1 x = rotr 6 x XOR rotr 11 x XOR rotr 25 x"

definition ssig0 :: "int \<Rightarrow> int" where
  "ssig0 x = rotr 7 x XOR rotr 18 x XOR x div 2 ^ 3"

definition ssig1 :: "int \<Rightarrow> int" where
  "ssig1 x = rotr 17 x XOR rotr 19 x XOR x div 2 ^ 10"

definition ch :: "int \<Rightarrow> int \<Rightarrow> int \<Rightarrow> int" where
  "ch x y z = (x AND y) XOR (not32 x AND z)"

definition maj :: "int \<Rightarrow> int \<Rightarrow> int \<Rightarrow> int" where
  "maj x y z = (x AND y) XOR (x AND z) XOR (y AND z)"

definition K256 :: "int list" where
  "K256 = [
  1116352408, 1899447441, 3049323471, 3921009573, 961987163, 1508970993, 2453635748, 2870763221,
  3624381080, 310598401, 607225278, 1426881987, 1925078388, 2162078206, 2614888103, 3248222580,
  3835390401, 4022224774, 264347078, 604807628, 770255983, 1249150122, 1555081692, 1996064986,
  2554220882, 2821834349, 2952996808, 3210313671, 3336571891, 3584528711, 113926993, 338241895,
  666307205, 773529912, 1294757372, 1396182291, 1695183700, 1986661051, 2177026350, 2456956037,
  2730485921, 2820302411, 3259730800, 3345764771, 3516065817, 3600352804, 4094571909, 275423344,
  430227734, 506948616, 659060556, 883997877, 958139571, 1322822218, 1537002063, 1747873779,
  1955562222, 2024104815, 2227730452, 2361852424, 2428436474, 2756734187, 3204031479, 3329325298]"

definition H256 :: "int list" where
  "H256 = [1779033703, 3144134277, 1013904242, 2773480762,
           1359893119, 2600822924, 528734635, 1541459225]"

text \<open>One round on the working variables \<open>[a, b, c, d, e, f, g, h]\<close>.\<close>

fun sha_round :: "int list \<Rightarrow> int \<Rightarrow> int \<Rightarrow> int list" where
  "sha_round [a, b, c, d, e, f, g, h] k w =
     (let t1 = add32 (add32 (add32 (add32 h (bsig1 e)) (ch e f g)) k) w;
          t2 = add32 (bsig0 a) (maj a b c)
      in [add32 t1 t2, a, b, c, add32 d t1, e, f, g])"
| "sha_round st k w = st"

text \<open>
  The message schedule is kept as a window of the last sixteen words: the head is the
  word of the current round, and each round appends the word sixteen rounds ahead.
\<close>

definition sched_next :: "int list \<Rightarrow> int" where
  "sched_next w = add32 (add32 (add32 (ssig1 (w ! 14)) (w ! 9)) (ssig0 (w ! 1))) (w ! 0)"

fun sha_rounds :: "int list \<Rightarrow> int list \<Rightarrow> int list \<Rightarrow> int list" where
  "sha_rounds [] w st = st"
| "sha_rounds (k # ks) w st = sha_rounds ks (tl w @ [sched_next w]) (sha_round st k (hd w))"

fun be32 :: "bytes \<Rightarrow> int list" where
  "be32 (a # b # c # d # r) =
     (((uint a * 256 + uint b) * 256 + uint c) * 256 + uint d) # be32 r"
| "be32 r = []"

definition compress :: "int list \<Rightarrow> bytes \<Rightarrow> int list" where
  "compress hs blk = map2 add32 hs (sha_rounds K256 (be32 blk) hs)"

function sha_blocks :: "int list \<Rightarrow> bytes \<Rightarrow> int list" where
  "sha_blocks hs m =
     (if length m < 64 then hs else sha_blocks (compress hs (take 64 m)) (drop 64 m))"
  by pat_completeness auto
termination
  by (relation "measure (\<lambda>(hs, m). length m)") auto

declare sha_blocks.simps [simp del]

definition be_bytes :: "nat \<Rightarrow> int \<Rightarrow> bytes" where
  "be_bytes n x = map (\<lambda>i. word_of_int ((x div 256 ^ i) mod 256)) (rev [0..<n])"

definition sha_pad :: "bytes \<Rightarrow> bytes" where
  "sha_pad m =
     m @ [128] @ replicate ((119 - length m mod 64) mod 64) 0
       @ be_bytes 8 (8 * int (length m))"

definition SHA256 :: "bytes \<Rightarrow> bytes" where
  "SHA256 m = concat (map (be_bytes 4) (sha_blocks H256 (sha_pad m)))"

subsection \<open>The PCR accumulator: extendPCRValue\<close>

text \<open>
  \<^verbatim>\<open>crypto.SHA256.New()\<close> is a streaming hash: the state is the bytes written so far,
  \<^verbatim>\<open>Write\<close> appends and (by the contract of \<^verbatim>\<open>hash.Hash\<close>) never returns an error,
  \<^verbatim>\<open>Sum(b)\<close> appends the digest of what was written to \<open>b\<close>.
\<close>

type_synonym hash_Hash = bytes

definition crypto_SHA256_New :: hash_Hash where
  "crypto_SHA256_New = []"

definition hash_Write :: "hash_Hash \<Rightarrow> bytes \<Rightarrow> hash_Hash \<times> nat \<times> error option" where
  "hash_Write h p = (h @ p, length p, None)"

definition hash_Sum :: "hash_Hash \<Rightarrow> bytes \<Rightarrow> bytes" where
  "hash_Sum h b = b @ SHA256 h"

definition sha256_Sum256 :: "bytes \<Rightarrow> bytes" where
  "sha256_Sum256 data = SHA256 data"

definition extendPCRValue :: "bytes \<Rightarrow> bytes \<Rightarrow> bool \<Rightarrow> error + bytes" where
  "extendPCRValue pcr content computeSHA256 =
     (case hash_Write crypto_SHA256_New pcr of
        (hash, _, Some err) \<Rightarrow> Inl err
      | (hash, _, None) \<Rightarrow>
          if computeSHA256 then
            (case hash_Write hash (sha256_Sum256 content) of
               (hash', _, Some err) \<Rightarrow> Inl err
             | (hash', _, None) \<Rightarrow> Inr (hash_Sum hash' []))
          else
            (case hash_Write hash content of
               (hash', _, Some err) \<Rightarrow> Inl err
             | (hash', _, None) \<Rightarrow> Inr (hash_Sum hash' [])))"

subsection \<open>Go strings and slices\<close>

text \<open>
  \<^verbatim>\<open>strings.Split(s, sep)\<close> for a one-character separator: a string with \<open>n\<close> separators
  gives \<open>n + 1\<close> tokens (the empty string gives one empty token), consecutive separators
  give empty tokens.
\<close>

fun strings_Split :: "string \<Rightarrow> char \<Rightarrow> string list" where
  "strings_Split [] sep = [[]]"
| "strings_Split (c # cs) sep =
     (if c = sep then [] # strings_Split cs sep
      else (case strings_Split cs sep of
              [] \<Rightarrow> [[c]]
            | t # ts \<Rightarrow> (c # t) # ts))"

fun strings_Join :: "string list \<Rightarrow> string \<Rightarrow> string" where
  "strings_Join [] sep = []"
| "strings_Join [x] sep = x"
| "strings_Join (x # y # ys) sep = x @ sep @ strings_Join (y # ys) sep"

definition strings_HasPrefix :: "string \<Rightarrow> string \<Rightarrow> bool" where
  "strings_HasPrefix s pre = (length pre \<le> length s \<and> take (length pre) s = pre)"

text \<open>
  The slice expression \<^verbatim>\<open>s[:n]\<close>. Go checks \<open>n\<close> against the capacity and panics beyond
  it; the slices sliced in this file come from \<^verbatim>\<open>make\<close> with capacity equal to length
  (\<^verbatim>\<open>strings.Split\<close>, \<^verbatim>\<open>ParseUEFIVariableData\<close>).
\<close>

definition slice_to :: "'a list \<Rightarrow> nat \<Rightarrow> error + 'a list" where
  "slice_to s n =
     (if n \<le> length s then Inr (take n s) else Inl (Panic ''slice bounds out of range''))"

text \<open>\<^verbatim>\<open>slices.IndexFunc\<close>: the first index whose element satisfies \<open>f\<close>, or \<open>-1\<close>.\<close>

fun slices_IndexFunc :: "'a list \<Rightarrow> ('a \<Rightarrow> bool) \<Rightarrow> int" where
  "slices_IndexFunc [] f = - 1"
| "slices_IndexFunc (x # xs) f =
     (if f x then 0
      else (let i = slices_IndexFunc xs f in if i < 0 then - 1 else i + 1))"

subsection \<open>Data model\<close>

text \<open>
  An X.509 certificate: its DER bytes and the string form of its Subject
  (\<^verbatim>\<open>Subject.String()\<close>). \<^verbatim>\<open>Certificate.Equal\<close> compares the DER bytes.
\<close>

record Certificate =
  Raw :: bytes
  Subject :: string

definition Equal :: "Certificate \<Rightarrow> Certificate \<Rightarrow> bool" where
  "Equal c other = (Raw c = Raw other)"

text \<open>\<^verbatim>\<open>tcg.UEFIVariableData\<close> with its fixed-size header.\<close>

record UEFIVariableDataHeader =
  VariableName :: bytes
  UnicodeNameLength :: "64 word"
  VariableDataLength :: "64 word"

record UEFIVariableData =
  Header :: UEFIVariableDataHeader
  UnicodeName :: "16 word list"
  VariableData :: bytes

text \<open>\<^verbatim>\<open>tcg.Event\<close>: the fields and the replayed digest that the predictor reads.\<close>

datatype EventType = EFIVariableDriverConfig | EFIVariableAuthority | OtherEventType nat

record Event =
  Index :: int
  Type :: EventType
  Data :: bytes
  ReplayedDigest :: bytes

text \<open>
  \<^verbatim>\<open>debug/pe\<close>: the optional header of a PE file is absent, 32-bit or 64-bit; the 64-bit one
  carries the array of sixteen data directories, indexed here by position.
\<close>

record pe_DataDirectory =
  VirtualAddress :: "32 word"
  Size :: "32 word"

datatype pe_OptionalHeader =
    NoOptionalHeader
  | OptionalHeader32
  | OptionalHeader64 "nat \<Rightarrow> pe_DataDirectory"

record pe_File =
  OptionalHeader :: pe_OptionalHeader

definition IMAGE_DIRECTORY_ENTRY_SECURITY :: nat where
  "IMAGE_DIRECTORY_ENTRY_SECURITY = 4"

text \<open>
  The environment of the predictor: the library functions it calls and the state of the
  machine it reads (EFI variables, the boot stub's file). All of them are read-only.
\<close>

record env =
  tcg_ParseUEFIVariableData :: "bytes \<Rightarrow> error + UEFIVariableData"
  tcg_Encode :: "UEFIVariableData \<Rightarrow> error + bytes"
  tcg_VarName :: "UEFIVariableData \<Rightarrow> string"
  tcg_ParseUEFIVariableAuthority :: "UEFIVariableData \<Rightarrow> error + Certificate list"
  readEFIVariable :: "string \<Rightarrow> error + bytes"
  getArchEFIFiles :: "error + (string \<rightharpoonup> string)"
  GetCertificatesFromVar :: "string \<Rightarrow> error + Certificate list"
  pe_Open :: "string \<Rightarrow> error + pe_File"
  os_Open :: "string \<Rightarrow> error + bytes"
  pkcs7_Parse :: "bytes \<Rightarrow> error + Certificate list"

text \<open>Indexing a Go \<^verbatim>\<open>map[string]string\<close>: a missing key gives the empty string.\<close>

definition map_index :: "(string \<rightharpoonup> string) \<Rightarrow> string \<Rightarrow> string" where
  "map_index m k = (case m k of None \<Rightarrow> [] | Some v \<Rightarrow> v)"

subsection \<open>extractCertificateFromPE\<close>

text \<open>
  \<^verbatim>\<open>File.ReadAt(buf, off)\<close> on a file with the given content: it fills \<open>buf\<close> (of length
  \<open>n\<close>, zeroed by \<^verbatim>\<open>make\<close>) from offset \<open>off\<close>, returns the number of bytes read, and
  \<open>EOF\<close> when the file ends before \<open>buf\<close> is full.
\<close>

definition File_ReadAt :: "bytes \<Rightarrow> nat \<Rightarrow> int \<Rightarrow> bytes \<times> nat \<times> error option" where
  "File_ReadAt content n off =
     (if off < 0 then (replicate n 0, 0, Some (ExternalError ''negative offset''))
      else (let d = take n (drop (nat off) content)
            in (d @ replicate (n - length d) 0, length d,
                if length d < n then Some EOF else None)))"

text \<open>The read error that is not \<open>EOF\<close>, if any.\<close>

definition not_EOF :: "error option \<Rightarrow> error option" where
  "not_EOF err = (case err of None \<Rightarrow> None | Some e \<Rightarrow> if e = EOF then None else Some e)"

text \<open>
  \<open>certSize\<close> and \<open>offset\<close> are \<^verbatim>\<open>int64\<close> values computed from \<^verbatim>\<open>uint32\<close> fields, so
  they lie in \<open>[-8, 2^32 + 7]\<close> and never wrap; they are integers here.
  \<^verbatim>\<open>make([]byte, certSize)\<close> panics on a negative length.
\<close>

definition extractCertificateFromPE :: "env \<Rightarrow> string \<Rightarrow> error + Certificate" where
  "extractCertificateFromPE env filename =
     (case pe_Open env filename of
        Inl err \<Rightarrow> Inl err
      | Inr peFile \<Rightarrow>
          (case OptionalHeader peFile of
             OptionalHeader64 t \<Rightarrow>
               (let certSize = uint (Size (t IMAGE_DIRECTORY_ENTRY_SECURITY)) - 8;
                    offset = uint (VirtualAddress (t IMAGE_DIRECTORY_ENTRY_SECURITY)) + 8
                in if certSize \<le> - 8 \<or> offset \<le> 8
                   then Inl (NotASignedPEBinary NotValid filename)
                   else
                     (case os_Open env filename of
                        Inl err \<Rightarrow> Inl err
                      | Inr rawFile \<Rightarrow>
                          if certSize < 0 then Inl (Panic ''makeslice: len out of range'')
                          else
                            (case File_ReadAt rawFile (nat certSize) offset of
                               (buf, readBytes, err) \<Rightarrow>
                                 (case not_EOF err of
                                    Some e \<Rightarrow> Inl e
                                  | None \<Rightarrow>
                                      if int readBytes \<noteq> certSize
                                      then Inl (ShortCertificateRead readBytes certSize filename)
                                      else
                                        (case pkcs7_Parse env buf of
                                           Inl err' \<Rightarrow> Inl err'
                                         | Inr certs \<Rightarrow>
                                             if length certs \<noteq> 1
                                             then Inl (UnexpectedCertificateCount (InPE filename)
                                                        (length certs))
                                             else Inr (hd certs))))))
           | _ \<Rightarrow> Inl (NotASignedPEBinary Not64bit filename)))"

subsection \<open>computeExpectedVariableDriverConfig and computeExpectedVariableAuthority\<close>

definition computeExpectedVariableDriverConfig :: "env \<Rightarrow> bytes \<Rightarrow> error + bytes" where
  "computeExpectedVariableDriverConfig env rawBuf =
     (case tcg_ParseUEFIVariableData env rawBuf of
        Inl err \<Rightarrow> Inl err
      | Inr v \<Rightarrow>
          (case readEFIVariable env (tcg_VarName env v) of
             Inl err \<Rightarrow> Inl err
           | Inr buf \<Rightarrow>
               tcg_Encode env
                 (v\<lparr>Header := (Header v)\<lparr>VariableDataLength := of_nat (length buf)\<rparr>,
                    VariableData := buf\<rparr>)))"

definition computeExpectedVariableAuthority :: "env \<Rightarrow> bytes \<Rightarrow> error + bytes" where
  "computeExpectedVariableAuthority env rawBuf =
     (case tcg_ParseUEFIVariableData env rawBuf of
        Inl err \<Rightarrow> Inl err
      | Inr v \<Rightarrow>
     (case tcg_ParseUEFIVariableAuthority env v of
        Inl err \<Rightarrow> Inl err
      | Inr vaCerts \<Rightarrow>
     if length vaCerts \<noteq> 1
     then Inl (UnexpectedCertificateCount InVariableAuthority (length vaCerts))
     else
     (case getArchEFIFiles env of
        Inl err \<Rightarrow> Inl err
      | Inr efiFiles \<Rightarrow>
     (case extractCertificateFromPE env (map_index efiFiles ''bootEFI'') of
        Inl err \<Rightarrow> Inl err
      | Inr existingCert \<Rightarrow>
     if Equal (hd vaCerts) existingCert then Inr rawBuf
     else
     (case slice_to (strings_Split (Subject existingCert) CHR '' '') 4 of
        Inl err \<Rightarrow> Inl err
      | Inr words \<Rightarrow>
     (let existingCertPrefix = strings_Join words '' ''
      in
     if \<not> strings_HasPrefix (Subject (hd vaCerts)) existingCertPrefix then Inr rawBuf
     else
     (case GetCertificatesFromVar env ''db'' of
        Inl err \<Rightarrow> Inl err
      | Inr certs \<Rightarrow>
     (let index = slices_IndexFunc certs (\<lambda>c. Equal c existingCert)
      in
     if index < 0 then Inl (ExpectedCertificateNotInDB (Subject existingCert))
     else
     (case slice_to (VariableData v) 16 of
        Inl err \<Rightarrow> Inl err
      | Inr hdr \<Rightarrow>
     (let newBuf = hdr @ Raw (certs ! nat index)
      in
     if length newBuf \<noteq> length (VariableData v)
     then Inl (CertificateSizeMismatch (length newBuf) (length (VariableData v)))
     else tcg_Encode env (v\<lparr>VariableData := newBuf\<rparr>)))))))))))"

subsection \<open>computeNewPCR7Value\<close>

fun replayPCR7 :: "env \<Rightarrow> bytes \<Rightarrow> Event list \<Rightarrow> error + bytes" where
  "replayPCR7 env actualPCR7Buf [] = Inr actualPCR7Buf"
| "replayPCR7 env actualPCR7Buf (e # es) =
     (if Index e = 7 then
        (case Type e of
           EFIVariableDriverConfig \<Rightarrow>
             (case computeExpectedVariableDriverConfig env (Data e) of
                Inl err \<Rightarrow> Inl err
              | Inr buf \<Rightarrow>
                  (case extendPCRValue actualPCR7Buf buf True of
                     Inl err \<Rightarrow> Inl err
                   | Inr pcr \<Rightarrow> replayPCR7 env pcr es))
         | EFIVariableAuthority \<Rightarrow>
             (case computeExpectedVariableAuthority env (Data e) of
                Inl err \<Rightarrow> Inl err
              | Inr buf \<Rightarrow>
                  (case extendPCRValue actualPCR7Buf buf True of
                     Inl err \<Rightarrow> Inl err
                   | Inr pcr \<Rightarrow> replayPCR7 env pcr es))
         | OtherEventType t \<Rightarrow>
             (case extendPCRValue actualPCR7Buf (ReplayedDigest e) False of
                Inl err \<Rightarrow> Inl err
              | Inr pcr \<Rightarrow> replayPCR7 env pcr es))
      else replayPCR7 env actualPCR7Buf es)"

definition computeNewPCR7Value :: "env \<Rightarrow> Event list \<Rightarrow> error + bytes" where
  "computeNewPCR7Value env eventLog = replayPCR7 env (replicate 32 0) eventLog"

subsection \<open>ForceUpdatePCRBindings\<close>

text \<open>
  The recovery operation acts on the machine: it queries Secure Boot and the LUKS
  volumes, runs \<^verbatim>\<open>cryptsetup\<close>, \<^verbatim>\<open>systemd-cryptenroll\<close> and \<^verbatim>\<open>systemctl\<close>, reads the
  TPM's PCR file and writes the key file. Each such action is an event of a trace, recorded
  with its outcome, and the operation returns its error (or none) together with the trace
  of what it did. The machine is a record of oracles; each oracle sees the trace so far,
  so an outcome may depend on everything done before.

  \<open>EvRunCommand\<close> carries the environment passed to the command (\<open>None\<close> for
  \<^verbatim>\<open>RunCommandContext\<close>, which inherits it), the command, its arguments and its error.
  \<open>EvOpen\<close> is opening a file for reading, with the content then read from it.
\<close>

datatype sys_event =
    EvEnabled "error + bool"
  | EvGetLUKSVolumePartitions "error + (string \<times> string) list"
  | EvRunCommand "string list option" string "string list" "error option"
  | EvOpen string "error + bytes"
  | EvGetPublicKeyFromUKI string "error + bytes"
  | EvWriteFile string bytes nat "error option"

type_synonym trace = "sys_event list"

text \<open>
  \<open>GetLUKSVolumePartitions\<close> returns a Go map from volume name to device, given here by
  its entries. \<^verbatim>\<open>range\<close> over a map visits every entry once in an order that Go leaves
  unspecified: \<open>range_order k m\<close> is the order in which the \<open>k\<close>-th \<^verbatim>\<open>range\<close> statement of
  the function visits the entries \<open>m\<close>.
\<close>

record sys =
  Enabled :: "trace \<Rightarrow> error + bool"
  GetLUKSVolumePartitions :: "trace \<Rightarrow> error + (string \<times> string) list"
  range_order :: "nat \<Rightarrow> (string \<times> string) list \<Rightarrow> (string \<times> string) list"
  RunCommand :: "trace \<Rightarrow> string list option \<Rightarrow> string \<Rightarrow> string list \<Rightarrow> error option"
  OpenFile :: "trace \<Rightarrow> string \<Rightarrow> error + bytes"
  getPublicKeyFromUKI :: "trace \<Rightarrow> string \<Rightarrow> error + bytes"
  WriteFile :: "trace \<Rightarrow> string \<Rightarrow> bytes \<Rightarrow> nat \<Rightarrow> error option"
  Environ :: "string list"

text \<open>
  \<^verbatim>\<open>io.ReadFull\<close> into a buffer of \<open>n\<close> bytes from a file with the given content: fewer
  than \<open>n\<close> bytes is \<open>EOF\<close> when nothing was read and \<open>ErrUnexpectedEOF\<close> otherwise.
\<close>

definition io_ReadFull :: "bytes \<Rightarrow> nat \<Rightarrow> bytes \<times> nat \<times> error option" where
  "io_ReadFull content n =
     (let d = take n content
      in (d @ replicate (n - length d) 0, length d,
          if length d = n then None
          else if length d = 0 then Some EOF else Some ErrUnexpectedEOF))"

text \<open>
  \<^verbatim>\<open>encoding/hex\<close>: decoding accepts both cases, reports the first invalid byte, and an
  odd length after that; encoding writes lower case.
\<close>

definition fromHexChar :: "byte \<Rightarrow> byte option" where
  "fromHexChar c =
     (if 48 \<le> c \<and> c \<le> 57 then Some (c - 48)
      else if 97 \<le> c \<and> c \<le> 102 then Some (c - 87)
      else if 65 \<le> c \<and> c \<le> 70 then Some (c - 55)
      else None)"

fun hex_DecodeString :: "bytes \<Rightarrow> error + bytes" where
  "hex_DecodeString [] = Inr []"
| "hex_DecodeString [p] =
     (case fromHexChar p of None \<Rightarrow> Inl (InvalidByteError p) | Some a \<Rightarrow> Inl ErrLength)"
| "hex_DecodeString (p # q # r) =
     (case fromHexChar p of
        None \<Rightarrow> Inl (InvalidByteError p)
      | Some a \<Rightarrow>
          (case fromHexChar q of
             None \<Rightarrow> Inl (InvalidByteError q)
           | Some b \<Rightarrow>
               (case hex_DecodeString r of
                  Inl err \<Rightarrow> Inl err
                | Inr bs \<Rightarrow> Inr ((a * 16 + b) # bs))))"

definition hextable :: string where
  "hextable = ''0123456789abcdef''"

definition hex_EncodeToString :: "bytes \<Rightarrow> string" where
  "hex_EncodeToString src =
     concat (map (\<lambda>v. [hextable ! (unat v div 16), hextable ! (unat v mod 16)]) src)"

definition pcr7_path :: string where
  "pcr7_path = ''/sys/class/tpm/tpm0/pcr-sha256/7''"

definition key_path :: string where
  "key_path = ''/run/systemd/tpm2-pcr-public-key.pem''"

definition uki_path :: "string \<Rightarrow> string \<Rightarrow> string" where
  "uki_path osName osVersion = ''/boot/EFI/Linux/'' @ osName @ ''_'' @ osVersion @ ''.efi''"

definition readPCR7 :: "sys \<Rightarrow> trace \<Rightarrow> (error + bytes) \<times> trace" where
  "readPCR7 sy tr =
     (let r = OpenFile sy tr pcr7_path;
          tr' = tr @ [EvOpen pcr7_path r]
      in case r of
           Inl err \<Rightarrow> (Inl err, tr')
         | Inr pcr7File \<Rightarrow>
             (case io_ReadFull pcr7File 64 of
                (actualPCR7Buf, numBytes, Some err) \<Rightarrow> (Inl err, tr')
              | (actualPCR7Buf, numBytes, None) \<Rightarrow>
                  if numBytes \<noteq> 64 then (Inl (ShortPCR7Read numBytes), tr')
                  else (hex_DecodeString actualPCR7Buf, tr')))"

text \<open>
  The first loop: the unlock test of each volume, stopping at the first volume that fails
  it. The result says whether one did.
\<close>

fun testVolumes :: "sys \<Rightarrow> (string \<times> string) list \<Rightarrow> trace \<Rightarrow> bool \<times> trace" where
  "testVolumes sy [] tr = (False, tr)"
| "testVolumes sy ((volumeName, volumeDev) # vs) tr =
     (let args = [''luksOpen'', ''--test-passphrase'', volumeDev, volumeName];
          r = RunCommand sy tr None ''cryptsetup'' args;
          tr' = tr @ [EvRunCommand None ''cryptsetup'' args r]
      in if r \<noteq> None then (True, tr') else testVolumes sy vs tr')"

definition cryptenroll_args :: "string \<Rightarrow> string \<Rightarrow> string list" where
  "cryptenroll_args pcr7String volume =
     [''--tpm2-device=auto'', ''--wipe-slot=tpm2'', ''--tpm2-pcrlock='',
      ''--tpm2-pcrs=7:sha256='' @ pcr7String, volume]"

text \<open>The second loop: re-enrollment of each volume, returning at the first failure.\<close>

fun reenrollVolumes ::
  "sys \<Rightarrow> string list \<Rightarrow> string \<Rightarrow> string \<Rightarrow> trace \<Rightarrow> error option \<times> trace" where
  "reenrollVolumes sy [] luksPassword pcr7String tr = (None, tr)"
| "reenrollVolumes sy (volume # vs) luksPassword pcr7String tr =
     (let cmdEnv = Some (Environ sy @ [''PASSWORD='' @ luksPassword]);
          args = cryptenroll_args pcr7String volume;
          r = RunCommand sy tr cmdEnv ''systemd-cryptenroll'' args;
          tr' = tr @ [EvRunCommand cmdEnv ''systemd-cryptenroll'' args r]
      in case r of
           Some err \<Rightarrow> (Some err, tr')
         | None \<Rightarrow> reenrollVolumes sy vs luksPassword pcr7String tr')"

definition ForceUpdatePCRBindings ::
  "sys \<Rightarrow> string \<Rightarrow> string \<Rightarrow> string \<Rightarrow> error option \<times> trace" where
  "ForceUpdatePCRBindings sy osName osVersion luksPassword =
     (let r1 = Enabled sy [];
          tr1 = [EvEnabled r1]
      in case r1 of
           Inl err \<Rightarrow> (Some err, tr1)
         | Inr sbEnabled \<Rightarrow>
     if \<not> sbEnabled then (Some SecureBootDisabled, tr1)
     else
     (let r2 = GetLUKSVolumePartitions sy tr1;
          tr2 = tr1 @ [EvGetLUKSVolumePartitions r2]
      in case r2 of
           Inl err \<Rightarrow> (Some err, tr2)
         | Inr luksVolumes \<Rightarrow>
     (case testVolumes sy (range_order sy 0 luksVolumes) tr2 of
        (atLeastOneVolumeNeedsFixing, tr3) \<Rightarrow>
     if \<not> atLeastOneVolumeNeedsFixing then (Some NoRecoveryNeeded, tr3)
     else
     (case readPCR7 sy tr3 of
        (Inl err, tr4) \<Rightarrow> (Some err, tr4)
      | (Inr pcr7, tr4) \<Rightarrow>
     (let ukiPath = uki_path osName osVersion;
          r5 = getPublicKeyFromUKI sy tr4 ukiPath;
          tr5 = tr4 @ [EvGetPublicKeyFromUKI ukiPath r5]
      in case r5 of
           Inl err \<Rightarrow> (Some err, tr5)
         | Inr ukiCert \<Rightarrow>
     (let r6 = WriteFile sy tr5 key_path ukiCert 384;
          tr6 = tr5 @ [EvWriteFile key_path ukiCert 384 r6]
      in case r6 of
           Some err \<Rightarrow> (Some err, tr6)
         | None \<Rightarrow>
     (let pcr7String = hex_EncodeToString pcr7
      in case reenrollVolumes sy (map snd (range_order sy 1 luksVolumes)) luksPassword
                pcr7String tr6 of
           (Some err, tr7) \<Rightarrow> (Some err, tr7)
         | (None, tr7) \<Rightarrow>
             (let r8 = RunCommand sy tr7 None ''systemctl'' [''reboot'']
              in (r8, tr7 @ [EvRunCommand None ''systemctl'' [''reboot''] r8])))))))))"

subsection \<open>Reading a trace\<close>

text \<open>
  The events of re-enrollment and of the reboot request; the event of a passed unlock test
  and of a re-enrollment with outcome \<open>r\<close>, as the code issues them; the events before the
  first re-enrollment of a run that reaches it; and the assumption on \<^verbatim>\<open>range\<close>, that it
  visits each entry exactly once.
\<close>

fun is_reenroll :: "sys_event \<Rightarrow> bool" where
  "is_reenroll (EvRunCommand e cmd args r) = (cmd = ''systemd-cryptenroll'')"
| "is_reenroll ev = False"

fun is_reboot :: "sys_event \<Rightarrow> bool" where
  "is_reboot (EvRunCommand e cmd args r) = (cmd = ''systemctl'' \<and> args = [''reboot''])"
| "is_reboot ev = False"

definition test_event :: "string \<times> string \<Rightarrow> sys_event" where
  "test_event vol =
     (case vol of (volumeName, volumeDev) \<Rightarrow>
        EvRunCommand None ''cryptsetup''
          [''luksOpen'', ''--test-passphrase'', volumeDev, volumeName] None)"

definition reenroll_event :: "sys \<Rightarrow> string \<Rightarrow> string \<Rightarrow> error option \<Rightarrow> string \<Rightarrow> sys_event" where
  "reenroll_event sy luksPassword pcr7String r volume =
     EvRunCommand (Some (Environ sy @ [''PASSWORD='' @ luksPassword])) ''systemd-cryptenroll''
       (cryptenroll_args pcr7String volume) r"

definition preamble ::
  "string \<Rightarrow> string \<Rightarrow> (string \<times> string) list \<Rightarrow> trace \<Rightarrow> bytes \<Rightarrow> bytes \<Rightarrow> trace" where
  "preamble osName osVersion luksVolumes ts content ukiCert =
     [EvEnabled (Inr True), EvGetLUKSVolumePartitions (Inr luksVolumes)] @ ts @
     [EvOpen pcr7_path (Inr content),
      EvGetPublicKeyFromUKI (uki_path osName osVersion) (Inr ukiCert),
      EvWriteFile key_path ukiCert 384 None]"

definition range_ok :: "sys \<Rightarrow> bool" where
  "range_ok sy = (\<forall>k m. mset (range_order sy k m) = mset m)"


subsection \<open>The predictor as the specification words it\<close>






subsection \<open>A reference environment\<close>

text \<open>
  A concrete environment on which the functions above can be run. Variable records follow
  the layout of \<open>UEFI_VARIABLE_DATA\<close> (a 16-byte GUID, the two 64-bit little-endian
  lengths, the UTF-16 name, the data); a variable-authority payload is a 16-byte owner
  GUID followed by the certificate. Certificates are stand-ins: the DER bytes of a
  certificate are the ASCII bytes of its Subject. The boot stub is a file whose security
  directory, at offset 16, holds the 8-byte \<open>WIN_CERTIFICATE\<close> header and the
  certificate \<open>stub\<close>; \<open>dbCerts\<close> and \<open>dbValue\<close> are the certificates and the raw value
  of the live \<open>db\<close> variable.
\<close>

definition le_bytes :: "nat \<Rightarrow> int \<Rightarrow> bytes" where
  "le_bytes n x = map (\<lambda>i. word_of_int ((x div 256 ^ i) mod 256)) [0..<n]"

fun le_int :: "bytes \<Rightarrow> int" where
  "le_int [] = 0"
| "le_int (b # bs) = uint b + 256 * le_int bs"

fun le16_words :: "bytes \<Rightarrow> 16 word list" where
  "le16_words (a # b # r) = word_of_int (uint a + 256 * uint b) # le16_words r"
| "le16_words r = []"

definition ref_encoding :: "UEFIVariableData \<Rightarrow> bytes" where
  "ref_encoding v =
     VariableName (Header v)
     @ le_bytes 8 (uint (UnicodeNameLength (Header v)))
     @ le_bytes 8 (uint (VariableDataLength (Header v)))
     @ concat (map (\<lambda>u. le_bytes 2 (uint u)) (UnicodeName v))
     @ VariableData v"

definition ref_ParseUEFIVariableData :: "bytes \<Rightarrow> error + UEFIVariableData" where
  "ref_ParseUEFIVariableData b =
     (if length b < 32 then Inl ErrUnexpectedEOF
      else (let nl = nat (le_int (take 8 (drop 16 b)));
                dl = nat (le_int (take 8 (drop 24 b)));
                rest = drop 32 b
            in if length rest < 2 * nl + dl then Inl ErrUnexpectedEOF
               else Inr \<lparr>Header = \<lparr>VariableName = take 16 b,
                                     UnicodeNameLength = of_nat nl,
                                     VariableDataLength = of_nat dl\<rparr>,
                         UnicodeName = le16_words (take (2 * nl) rest),
                         VariableData = take dl (drop (2 * nl) rest)\<rparr>))"

definition ascii :: "string \<Rightarrow> bytes" where
  "ascii s = map of_char s"

definition ref_certificate :: "bytes \<Rightarrow> Certificate" where
  "ref_certificate raw = \<lparr>Raw = raw, Subject = map (\<lambda>b. char_of (uint b)) raw\<rparr>"

definition ref_ParseUEFIVariableAuthority :: "UEFIVariableData \<Rightarrow> error + Certificate list" where
  "ref_ParseUEFIVariableAuthority v =
     (if length (VariableData v) < 16
      then Inl (ExternalError ''invalid signature: buffer smaller than header'')
      else Inr [ref_certificate (drop 16 (VariableData v))])"

definition bootEFI_path :: string where
  "bootEFI_path = ''/boot/EFI/BOOT/BOOTX64.EFI''"

definition ref_env :: "bytes \<Rightarrow> Certificate list \<Rightarrow> bytes \<Rightarrow> env" where
  "ref_env stub dbCerts dbValue =
     \<lparr>tcg_ParseUEFIVariableData = ref_ParseUEFIVariableData,
      tcg_Encode = (\<lambda>v. Inr (ref_encoding v)),
      tcg_VarName = (\<lambda>v. map (\<lambda>u. char_of (uint u)) (UnicodeName v)),
      tcg_ParseUEFIVariableAuthority = ref_ParseUEFIVariableAuthority,
      readEFIVariable =
        (\<lambda>name. if name = ''db'' then Inr dbValue else Inl (ExternalError ''no such variable'')),
      getArchEFIFiles = Inr [''bootEFI'' \<mapsto> bootEFI_path],
      GetCertificatesFromVar =
        (\<lambda>name. if name = ''db'' then Inr dbCerts else Inl (ExternalError ''no such variable'')),
      pe_Open =
        (\<lambda>filename.
           if filename = bootEFI_path
           then Inr \<lparr>OptionalHeader = OptionalHeader64
                      (\<lambda>i. if i = IMAGE_DIRECTORY_ENTRY_SECURITY
                           then \<lparr>VirtualAddress = 16, Size = of_nat (length stub + 8)\<rparr>
                           else \<lparr>VirtualAddress = 0, Size = 0\<rparr>)\<rparr>
           else Inl (ExternalError ''no such file'')),
      os_Open =
        (\<lambda>filename.
           if filename = bootEFI_path then Inr (replicate 24 0 @ stub)
           else Inl (ExternalError ''no such file'')),
      pkcs7_Parse = (\<lambda>buf. Inr [ref_certificate buf])\<rparr>"

definition security_database_guid :: bytes where
  "security_database_guid =
     [203, 178, 25, 215, 58, 61, 150, 69, 163, 188, 218, 208, 14, 103, 101, 111]"

definition variable_record :: "string \<Rightarrow> bytes \<Rightarrow> UEFIVariableData" where
  "variable_record name payload =
     \<lparr>Header = \<lparr>VariableName = security_database_guid,
                 UnicodeNameLength = of_nat (length name),
                 VariableDataLength = of_nat (length payload)\<rparr>,
      UnicodeName = map of_char name,
      VariableData = payload\<rparr>"

definition cert_E1 :: bytes where "cert_E1 = ascii ''CN=Incus OS - Secure Boot E1''"
definition cert_short :: bytes where "cert_short = ascii ''CN=Test''"

definition authority_event_data :: "bytes \<Rightarrow> bytes" where
  "authority_event_data cert = ref_encoding (variable_record ''db'' (replicate 16 0 @ cert))"


text \<open>A boot stub whose security directory is four bytes long.\<close>

definition small_directory_env :: env where
  "small_directory_env =
     (ref_env cert_E1 [] [])
       \<lparr>pe_Open := (\<lambda>filename.
          Inr \<lparr>OptionalHeader =
                 OptionalHeader64 (\<lambda>i. \<lparr>VirtualAddress = 1000, Size = 4\<rparr>)\<rparr>)\<rparr>"






text \<open>
  A machine with Secure Boot enabled and two LUKS volumes. The volumes whose names are in
  \<open>locked\<close> fail the unlock test, the devices in \<open>broken\<close> fail re-enrollment; the second
  \<^verbatim>\<open>range\<close> visits the volumes in the reverse order of the first.
\<close>

definition demo_sys :: "string list \<Rightarrow> string list \<Rightarrow> sys" where
  "demo_sys locked broken =
     \<lparr>Enabled = (\<lambda>tr. Inr True),
      GetLUKSVolumePartitions =
        (\<lambda>tr. Inr [(''root'', ''/dev/sda2''), (''swap'', ''/dev/sda3'')]),
      range_order = (\<lambda>k m. if k = 0 then m else rev m),
      RunCommand =
        (\<lambda>tr cmdEnv cmd args.
           if cmd = ''cryptsetup'' \<and> last args \<in> set locked
           then Some (ExternalError ''No usable token is available.'')
           else if cmd = ''systemd-cryptenroll'' \<and> last args \<in> set broken
           then Some (ExternalError ''Failed to enroll'')
           else None),
      OpenFile =
        (\<lambda>tr path.
           Inr (ascii ''27939d6f9cdfc1eef80aca808f28c8d2522da4f67b9536135ad4e439402a4ae4'')),
      getPublicKeyFromUKI = (\<lambda>tr path. Inr (ascii ''-----BEGIN PUBLIC KEY-----'')),
      WriteFile = (\<lambda>tr path content perm. None),
      Environ = [''PATH=/usr/bin'']\<rparr>"

definition recovery_run :: "error option \<times> trace" where
  "recovery_run =
     ForceUpdatePCRBindings (demo_sys [''root''] []) ''IncusOS'' ''202510310000'' ''hunter2''"

definition failed_run :: "error option \<times> trace" where
  "failed_run =
     ForceUpdatePCRBindings (demo_sys [''swap''] [''/dev/sda3'']) ''IncusOS'' ''202510310000''
       ''hunter2''"


section \<open>Theorems\<close>

subsection \<open>SHA-256 test vectors\<close>

lemma SHA256_empty:
  "SHA256 [] =
     [227, 176, 196, 66, 152, 252, 28, 20, 154, 251, 244, 200, 153, 111, 185, 36,
      39, 174, 65, 228, 100, 155, 147, 76, 164, 149, 153, 27, 120, 82, 184, 85]"
  by code_simp

lemma SHA256_abc:
  "SHA256 [97, 98, 99] =
     [186, 120, 22, 191, 143, 1, 207, 234, 65, 65, 64, 222, 93, 174, 34, 35,
      176, 3, 97, 163, 150, 23, 122, 156, 180, 16, 255, 97, 242, 0, 21, 173]"
  by code_simp

subsection \<open>A PCR value is 32 bytes\<close>

text \<open>
  Every digest has 32 bytes, so every value that \<open>extendPCRValue\<close> or
  \<open>computeNewPCR7Value\<close> returns is a 32-byte register value.
\<close>

lemma length_sha_round: "length st = 8 \<Longrightarrow> length (sha_round st k w) = 8"
  by (auto simp: numeral_eq_Suc length_Suc_conv Let_def)

lemma length_sha_rounds: "length st = 8 \<Longrightarrow> length (sha_rounds ks w st) = 8"
  by (induction ks arbitrary: w st) (simp_all add: length_sha_round)

lemma length_compress: "length hs = 8 \<Longrightarrow> length (compress hs blk) = 8"
  by (simp add: compress_def length_sha_rounds)

lemma length_sha_blocks: "length hs = 8 \<Longrightarrow> length (sha_blocks hs m) = 8"
proof (induction hs m rule: sha_blocks.induct)
  case (1 hs m)
  then show ?case
    by (subst sha_blocks.simps) (simp add: length_compress)
qed

lemma length_be_bytes: "length (be_bytes n x) = n"
  by (simp add: be_bytes_def)

lemma length_concat_const:
  "\<forall>x\<in>set xs. length (f x) = n \<Longrightarrow> length (concat (map f xs)) = n * length xs"
  by (induction xs) simp_all

lemma length_SHA256: "length (SHA256 m) = 32"
proof -
  have "length (sha_blocks H256 (sha_pad m)) = 8"
    by (rule length_sha_blocks) (simp add: H256_def)
  then show ?thesis
    by (simp add: SHA256_def length_concat_const [where n = 4] length_be_bytes)
qed

lemma length_extendPCRValue:
  "extendPCRValue pcr content h = Inr pcr' \<Longrightarrow> length pcr' = 32"
  by (auto simp: extendPCRValue_def hash_Write_def hash_Sum_def crypto_SHA256_New_def
      sha256_Sum256_def length_SHA256 split: if_splits)

lemma length_replayPCR7:
  "replayPCR7 env acc eventLog = Inr pcr \<Longrightarrow> length acc = 32 \<Longrightarrow> length pcr = 32"
proof (induction eventLog arbitrary: acc)
  case Nil
  then show ?case by simp
next
  case (Cons e es)
  show ?case
  proof (cases "Index e = 7")
    case False
    with Cons show ?thesis by simp
  next
    case True
    with Cons.prems obtain buf h acc' where
      "extendPCRValue acc buf h = Inr acc'" "replayPCR7 env acc' es = Inr pcr"
      by (auto split: EventType.splits sum.splits)
    with Cons.IH length_extendPCRValue show ?thesis by blast
  qed
qed

lemma length_computeNewPCR7Value:
  "computeNewPCR7Value env eventLog = Inr pcr \<Longrightarrow> length pcr = 32"
  by (auto simp: computeNewPCR7Value_def dest: length_replayPCR7)

subsection \<open>Helper lemmas\<close>




lemma ref_files:
  "getArchEFIFiles (ref_env stub dbCerts dbValue) = Inr [''bootEFI'' \<mapsto> bootEFI_path]"
  by (simp add: ref_env_def)


lemma parse_event_E1:
  "ref_ParseUEFIVariableData (authority_event_data cert_E1) =
     Inr (variable_record ''db'' (replicate 16 0 @ cert_E1))"
  by code_simp


lemma ref_parse:
  "tcg_ParseUEFIVariableData (ref_env stub dbCerts dbValue) = ref_ParseUEFIVariableData"
  by (simp add: ref_env_def)

lemma ref_authority:
  "tcg_ParseUEFIVariableAuthority (ref_env stub dbCerts dbValue)
     (variable_record name (replicate 16 0 @ cert)) = Inr [ref_certificate cert]"
  by (simp add: ref_env_def ref_ParseUEFIVariableAuthority_def variable_record_def)




lemma stub_short:
  "extractCertificateFromPE (ref_env cert_short dbCerts dbValue)
     (map_index [''bootEFI'' \<mapsto> bootEFI_path] ''bootEFI'') = Inr (ref_certificate cert_short)"
  by code_simp

subsection \<open>C5: the accumulator\<close>

text \<open>
  C5. For every register value \<open>pcr\<close> and every \<open>content\<close>, \<open>extendPCRValue\<close> returns
  \<open>SHA256 (pcr || SHA256 content)\<close> when the flag is set and \<open>SHA256 (pcr || content)\<close>
  when it is not. The result is always a value, never an error: the function is a total
  HOL function of its three arguments (pure and deterministic) with no reachable error
  branch.
\<close>

theorem extendPCRValue_correct:
  "extendPCRValue pcr content hash_content_first =
     Inr (if hash_content_first then SHA256 (pcr @ SHA256 content) else SHA256 (pcr @ content))"
  by (simp add: extendPCRValue_def hash_Write_def hash_Sum_def crypto_SHA256_New_def
      sha256_Sum256_def)

subsection \<open>C7: the identity cases of the trust matcher\<close>



subsection \<open>C2: rotation of the signing certificate\<close>



subsection \<open>C8: the Subject prefix of a short Subject\<close>

text \<open>
  C8. The claim is that the trust prefix is computed within bounds for every Subject.
  The code slices the token list with \<^verbatim>\<open>[:4]\<close> without checking its length: when the
  certificates differ and the Subject of the boot stub's certificate splits into fewer than
  four space-separated tokens, \<open>computeExpectedVariableAuthority\<close> does not return; it
  panics with a slice bound out of range.
\<close>

theorem short_subject_panics:
  assumes "tcg_ParseUEFIVariableData env rawBuf = Inr v"
    and "tcg_ParseUEFIVariableAuthority env v = Inr [vaCert]"
    and "getArchEFIFiles env = Inr efiFiles"
    and "extractCertificateFromPE env (map_index efiFiles ''bootEFI'') = Inr existingCert"
    and "\<not> Equal vaCert existingCert"
    and "length (strings_Split (Subject existingCert) CHR '' '') < 4"
  shows "computeExpectedVariableAuthority env rawBuf = Inl (Panic ''slice bounds out of range'')"
  using assms by (simp add: computeExpectedVariableAuthority_def slice_to_def)

theorem short_subject_panics_witness:
  "computeExpectedVariableAuthority (ref_env cert_short [] []) (authority_event_data cert_E1) =
     Inl (Panic ''slice bounds out of range'')"
proof -
  have p: "tcg_ParseUEFIVariableData (ref_env cert_short [] []) (authority_event_data cert_E1) =
      Inr (variable_record ''db'' (replicate 16 0 @ cert_E1))"
    by (simp add: ref_parse parse_event_E1)
  have d: "\<not> Equal (ref_certificate cert_E1) (ref_certificate cert_short)"
    by code_simp
  have t: "length (strings_Split (Subject (ref_certificate cert_short)) CHR '' '') < 4"
    by code_simp
  from short_subject_panics [OF p ref_authority ref_files stub_short d t]
  show ?thesis .
qed

subsection \<open>C9: exactly one certificate\<close>



subsection \<open>C6: the security directory of a PE file\<close>

text \<open>
  C6. The claim is that every read is bounds-checked and that the size of the
  certificate buffer is never negative. The guard of the code rejects \<open>certSize \<le> -8\<close>,
  that is a security directory of size 0, but not the sizes 1 to 7: for a 64-bit PE file
  whose security directory has a non-zero address and a size between 1 and 7,
  \<open>certSize\<close> is negative, the guard passes, and allocating the buffer panics.
\<close>

theorem extractCertificateFromPE_small_size_panics:
  assumes "pe_Open env filename = Inr peFile"
    and "OptionalHeader peFile = OptionalHeader64 t"
    and "0 < uint (Size (t IMAGE_DIRECTORY_ENTRY_SECURITY))"
    and "uint (Size (t IMAGE_DIRECTORY_ENTRY_SECURITY)) < 8"
    and "0 < uint (VirtualAddress (t IMAGE_DIRECTORY_ENTRY_SECURITY))"
    and "os_Open env filename = Inr rawFile"
  shows "extractCertificateFromPE env filename = Inl (Panic ''makeslice: len out of range'')"
  using assms by (simp add: extractCertificateFromPE_def Let_def)

theorem extractCertificateFromPE_small_size_panics_witness:
  "extractCertificateFromPE small_directory_env bootEFI_path =
     Inl (Panic ''makeslice: len out of range'')"
proof -
  let ?dir = "\<lambda>i::nat. \<lparr>VirtualAddress = 1000, Size = 4\<rparr>"
  have o: "pe_Open small_directory_env bootEFI_path = Inr \<lparr>OptionalHeader = OptionalHeader64 ?dir\<rparr>"
    by (simp add: small_directory_env_def)
  have h: "OptionalHeader \<lparr>OptionalHeader = OptionalHeader64 ?dir\<rparr> = OptionalHeader64 ?dir"
    by simp
  have f: "os_Open small_directory_env bootEFI_path = Inr (replicate 24 0 @ cert_E1)"
    by (simp add: small_directory_env_def ref_env_def)
  have s1: "0 < uint (Size (?dir IMAGE_DIRECTORY_ENTRY_SECURITY))"
    by simp
  have s2: "uint (Size (?dir IMAGE_DIRECTORY_ENTRY_SECURITY)) < 8"
    by simp
  have a: "0 < uint (VirtualAddress (?dir IMAGE_DIRECTORY_ENTRY_SECURITY))"
    by simp
  from extractCertificateFromPE_small_size_panics [OF o h s1 s2 a f]
  show ?thesis .
qed

text \<open>
  What the guard and the read do reject: a file that is not a 64-bit PE, a security
  directory of size 0 or at address 0, and a directory that reaches beyond the end of the
  file.
\<close>

lemma extractCertificateFromPE_not_64bit:
  "pe_Open env filename = Inr peFile \<Longrightarrow>
   OptionalHeader peFile = NoOptionalHeader \<or> OptionalHeader peFile = OptionalHeader32 \<Longrightarrow>
   extractCertificateFromPE env filename = Inl (NotASignedPEBinary Not64bit filename)"
  by (auto simp: extractCertificateFromPE_def)

lemma extractCertificateFromPE_empty_directory:
  "pe_Open env filename = Inr peFile \<Longrightarrow> OptionalHeader peFile = OptionalHeader64 t \<Longrightarrow>
   Size (t IMAGE_DIRECTORY_ENTRY_SECURITY) = 0 \<or>
   VirtualAddress (t IMAGE_DIRECTORY_ENTRY_SECURITY) = 0 \<Longrightarrow>
   extractCertificateFromPE env filename = Inl (NotASignedPEBinary NotValid filename)"
  by (auto simp: extractCertificateFromPE_def Let_def)

lemma extractCertificateFromPE_short_file:
  assumes "pe_Open env filename = Inr peFile"
    and "OptionalHeader peFile = OptionalHeader64 t"
    and "8 < uint (Size (t IMAGE_DIRECTORY_ENTRY_SECURITY))"
    and "0 < uint (VirtualAddress (t IMAGE_DIRECTORY_ENTRY_SECURITY))"
    and "os_Open env filename = Inr rawFile"
    and "int (length rawFile) < uint (VirtualAddress (t IMAGE_DIRECTORY_ENTRY_SECURITY))
            + uint (Size (t IMAGE_DIRECTORY_ENTRY_SECURITY))"
  shows "\<exists>n. extractCertificateFromPE env filename =
      Inl (ShortCertificateRead n (uint (Size (t IMAGE_DIRECTORY_ENTRY_SECURITY)) - 8) filename)"
  using assms
  by (auto simp: extractCertificateFromPE_def Let_def File_ReadAt_def not_EOF_def)

subsection \<open>C1: the PCR7 prediction\<close>










subsection \<open>The recovery operation: shape of a run\<close>

lemma testVolumes_shape:
  "testVolumes sy vs tr = (b, tr') \<Longrightarrow>
     \<exists>ts. tr' = tr @ ts \<and> \<not> list_ex is_reenroll ts \<and> \<not> list_ex is_reboot ts \<and>
       (b \<longrightarrow> (\<exists>args err. EvRunCommand None ''cryptsetup'' args (Some err) \<in> set ts))"
proof (induction vs arbitrary: tr)
  case Nil
  then show ?case by simp
next
  case (Cons x vs)
  obtain volumeName volumeDev where x: "x = (volumeName, volumeDev)" by (cases x)
  let ?args = "[''luksOpen'', ''--test-passphrase'', volumeDev, volumeName]"
  let ?r = "RunCommand sy tr None ''cryptsetup'' ?args"
  let ?ev = "EvRunCommand None ''cryptsetup'' ?args ?r"
  show ?case
  proof (cases ?r)
    case (Some err)
    with Cons.prems x have "b" "tr' = tr @ [?ev]" by (auto simp: Let_def)
    with Some show ?thesis by auto
  next
    case None
    with Cons.prems x have "testVolumes sy vs (tr @ [?ev]) = (b, tr')" by (simp add: Let_def)
    from Cons.IH [OF this] obtain ts where
      ts: "tr' = (tr @ [?ev]) @ ts" "\<not> list_ex is_reenroll ts" "\<not> list_ex is_reboot ts"
        "b \<longrightarrow> (\<exists>args err. EvRunCommand None ''cryptsetup'' args (Some err) \<in> set ts)"
      by blast
    then show ?thesis
      by (intro exI [of _ "?ev # ts"]) auto
  qed
qed

lemma testVolumes_all_pass:
  "\<forall>tr. \<forall>(volumeName, volumeDev)\<in>set vs.
      RunCommand sy tr None ''cryptsetup''
        [''luksOpen'', ''--test-passphrase'', volumeDev, volumeName] = None \<Longrightarrow>
   testVolumes sy vs tr =
     (False, tr @ map (\<lambda>(volumeName, volumeDev).
        EvRunCommand None ''cryptsetup''
          [''luksOpen'', ''--test-passphrase'', volumeDev, volumeName] None) vs)"
proof (induction vs arbitrary: tr)
  case Nil
  show ?case by simp
next
  case (Cons x vs)
  obtain volumeName volumeDev where x: "x = (volumeName, volumeDev)" by (cases x)
  from Cons.prems x have r: "RunCommand sy tr None ''cryptsetup''
      [''luksOpen'', ''--test-passphrase'', volumeDev, volumeName] = None"
    by auto
  from Cons.prems have "\<forall>tr. \<forall>(volumeName, volumeDev)\<in>set vs.
      RunCommand sy tr None ''cryptsetup''
        [''luksOpen'', ''--test-passphrase'', volumeDev, volumeName] = None"
    by auto
  from Cons.IH [OF this] x r show ?case by (simp add: Let_def)
qed

lemma testVolumes_all_pass':
  assumes "\<forall>tr. \<forall>(volumeName, volumeDev)\<in>set vs.
      RunCommand sy tr None ''cryptsetup''
        [''luksOpen'', ''--test-passphrase'', volumeDev, volumeName] = None"
  shows "testVolumes sy vs tr = (False, tr @ map test_event vs)"
proof -
  have "map test_event vs = map (\<lambda>(volumeName, volumeDev).
        EvRunCommand None ''cryptsetup''
          [''luksOpen'', ''--test-passphrase'', volumeDev, volumeName] None) vs"
    by (simp add: test_event_def)
  with testVolumes_all_pass [OF assms] show ?thesis by simp
qed

lemma no_reenroll_tests: "\<not> list_ex is_reenroll (map test_event vs)"
  by (auto simp: list_ex_iff test_event_def)

lemma reenrollVolumes_shape:
  "reenrollVolumes sy vs pw s tr = (r, tr') \<Longrightarrow>
     (r = None \<and> tr' = tr @ map (reenroll_event sy pw s None) vs) \<or>
     (\<exists>err k. r = Some err \<and> k < length vs \<and>
        tr' = tr @ map (reenroll_event sy pw s None) (take k vs)
                 @ [reenroll_event sy pw s (Some err) (vs ! k)])"
proof (induction vs arbitrary: tr)
  case Nil
  then show ?case by simp
next
  case (Cons v vs)
  let ?r = "RunCommand sy tr (Some (Environ sy @ [''PASSWORD='' @ pw])) ''systemd-cryptenroll''
      (cryptenroll_args s v)"
  show ?case
  proof (cases ?r)
    case (Some err)
    with Cons.prems have "r = Some err" "tr' = tr @ [reenroll_event sy pw s (Some err) v]"
      by (auto simp: Let_def reenroll_event_def)
    then have "\<exists>err k. r = Some err \<and> k < length (v # vs) \<and>
        tr' = tr @ map (reenroll_event sy pw s None) (take k (v # vs))
                 @ [reenroll_event sy pw s (Some err) ((v # vs) ! k)]"
      by (intro exI [of _ err] exI [of _ 0]) simp
    then show ?thesis by blast
  next
    case None
    with Cons.prems have
      "reenrollVolumes sy vs pw s (tr @ [reenroll_event sy pw s None v]) = (r, tr')"
      by (simp add: Let_def reenroll_event_def)
    from Cons.IH [OF this] show ?thesis
    proof
      assume "r = None \<and> tr' = (tr @ [reenroll_event sy pw s None v])
          @ map (reenroll_event sy pw s None) vs"
      then show ?thesis by simp
    next
      assume "\<exists>err k. r = Some err \<and> k < length vs \<and>
        tr' = (tr @ [reenroll_event sy pw s None v])
                 @ map (reenroll_event sy pw s None) (take k vs)
                 @ [reenroll_event sy pw s (Some err) (vs ! k)]"
      then obtain err k where "r = Some err" "k < length vs"
        "tr' = (tr @ [reenroll_event sy pw s None v])
                 @ map (reenroll_event sy pw s None) (take k vs)
                 @ [reenroll_event sy pw s (Some err) (vs ! k)]"
        by blast
      then have "\<exists>err k. r = Some err \<and> k < length (v # vs) \<and>
        tr' = tr @ map (reenroll_event sy pw s None) (take k (v # vs))
                 @ [reenroll_event sy pw s (Some err) ((v # vs) ! k)]"
        by (intro exI [of _ err] exI [of _ "Suc k"]) simp
      then show ?thesis by blast
    qed
  qed
qed

lemma readPCR7_trace: "\<exists>r. snd (readPCR7 sy tr) = tr @ [EvOpen pcr7_path r]"
  by (auto simp: readPCR7_def Let_def split: sum.splits prod.splits option.splits)

lemma readPCR7_Inr:
  "readPCR7 sy tr = (Inr pcr7, tr') \<Longrightarrow>
     \<exists>content. tr' = tr @ [EvOpen pcr7_path (Inr content)] \<and> 64 \<le> length content \<and>
        hex_DecodeString (take 64 content) = Inr pcr7"
  by (auto simp: readPCR7_def Let_def io_ReadFull_def
      split: sum.splits prod.splits option.splits if_splits)

lemma is_reenroll_reenroll_event [simp]: "is_reenroll (reenroll_event sy pw s r v)"
  by (simp add: reenroll_event_def)

lemma is_reboot_reenroll_event [simp]: "\<not> is_reboot (reenroll_event sy pw s r v)"
  by (simp add: reenroll_event_def)

lemma ForceUpdatePCRBindings_outcomes:
  assumes run: "ForceUpdatePCRBindings sy osName osVersion pw = (res, tr)"
  shows "(\<not> list_ex is_reenroll tr \<and> \<not> list_ex is_reboot tr \<and> res \<noteq> None) \<or>
    (\<exists>luksVolumes ts content pcr7 ukiCert.
       \<not> list_ex is_reenroll ts \<and> \<not> list_ex is_reboot ts \<and>
       (\<exists>args err. EvRunCommand None ''cryptsetup'' args (Some err) \<in> set ts) \<and>
       64 \<le> length content \<and> hex_DecodeString (take 64 content) = Inr pcr7 \<and>
       ((\<exists>err k. k < length (range_order sy 1 luksVolumes) \<and> res = Some err \<and>
           tr = preamble osName osVersion luksVolumes ts content ukiCert
                @ map (reenroll_event sy pw (hex_EncodeToString pcr7) None)
                    (take k (map snd (range_order sy 1 luksVolumes)))
                @ [reenroll_event sy pw (hex_EncodeToString pcr7) (Some err)
                     (map snd (range_order sy 1 luksVolumes) ! k)]) \<or>
        tr = preamble osName osVersion luksVolumes ts content ukiCert
             @ map (reenroll_event sy pw (hex_EncodeToString pcr7) None)
                 (map snd (range_order sy 1 luksVolumes))
             @ [EvRunCommand None ''systemctl'' [''reboot''] res]))"
    (is "?early \<or> ?late")
proof (cases "Enabled sy []")
  case (Inl err)
  with run have "res = Some err" "tr = [EvEnabled (Inl err)]"
    by (auto simp: ForceUpdatePCRBindings_def Let_def)
  then show ?thesis by simp
next
  case (Inr sbEnabled)
  show ?thesis
  proof (cases sbEnabled)
    case False
    with run Inr have "res = Some SecureBootDisabled" "tr = [EvEnabled (Inr False)]"
      by (auto simp: ForceUpdatePCRBindings_def Let_def)
    then show ?thesis by simp
  next
    case True
    with Inr have sb: "Enabled sy [] = Inr True" by simp
    let ?tr1 = "[EvEnabled (Inr True)]"
    show ?thesis
    proof (cases "GetLUKSVolumePartitions sy ?tr1")
      case (Inl err)
      with run sb have "res = Some err"
        "tr = [EvEnabled (Inr True), EvGetLUKSVolumePartitions (Inl err)]"
        by (auto simp: ForceUpdatePCRBindings_def Let_def)
      then show ?thesis by simp
    next
      case (Inr luksVolumes)
      note vols = Inr
      let ?tr2 = "[EvEnabled (Inr True), EvGetLUKSVolumePartitions (Inr luksVolumes)]"
      obtain b tr3 where tv: "testVolumes sy (range_order sy 0 luksVolumes) ?tr2 = (b, tr3)"
        by (cases "testVolumes sy (range_order sy 0 luksVolumes) ?tr2")
      from testVolumes_shape [OF tv] obtain ts where
        ts: "tr3 = ?tr2 @ ts" "\<not> list_ex is_reenroll ts" "\<not> list_ex is_reboot ts"
          "b \<longrightarrow> (\<exists>args err. EvRunCommand None ''cryptsetup'' args (Some err) \<in> set ts)"
        by blast
      show ?thesis
      proof (cases b)
        case False
        with run sb vols tv have "res = Some NoRecoveryNeeded" "tr = tr3"
          by (auto simp: ForceUpdatePCRBindings_def Let_def)
        with ts show ?thesis by simp
      next
        case True
        note b = True
        obtain rp tr4 where rp: "readPCR7 sy tr3 = (rp, tr4)"
          by (cases "readPCR7 sy tr3")
        show ?thesis
        proof (cases rp)
          case (Inl err)
          from readPCR7_trace [of sy tr3] rp obtain r where "tr4 = tr3 @ [EvOpen pcr7_path r]"
            by auto
          moreover from run sb vols tv b rp Inl have "res = Some err" "tr = tr4"
            by (auto simp: ForceUpdatePCRBindings_def Let_def)
          ultimately show ?thesis using ts by simp
        next
          case (Inr pcr7)
          note pcr = rp [unfolded Inr]
          from readPCR7_Inr [OF pcr] obtain content where
            content: "tr4 = tr3 @ [EvOpen pcr7_path (Inr content)]" "64 \<le> length content"
              "hex_DecodeString (take 64 content) = Inr pcr7"
            by blast
          let ?uki = "uki_path osName osVersion"
          show ?thesis
          proof (cases "getPublicKeyFromUKI sy tr4 ?uki")
            case (Inl err)
            with run sb vols tv b pcr have "res = Some err"
              "tr = tr4 @ [EvGetPublicKeyFromUKI ?uki (Inl err)]"
              by (auto simp: ForceUpdatePCRBindings_def Let_def)
            with ts content show ?thesis by simp
          next
            case (Inr ukiCert)
            note uki = Inr
            let ?tr5 = "tr4 @ [EvGetPublicKeyFromUKI ?uki (Inr ukiCert)]"
            show ?thesis
            proof (cases "WriteFile sy ?tr5 key_path ukiCert 384")
              case (Some err)
              with run sb vols tv b pcr uki have "res = Some err"
                "tr = ?tr5 @ [EvWriteFile key_path ukiCert 384 (Some err)]"
                by (auto simp: ForceUpdatePCRBindings_def Let_def)
              with ts content show ?thesis by simp
            next
              case None
              note wr = None
              let ?tr6 = "?tr5 @ [EvWriteFile key_path ukiCert 384 None]"
              let ?s = "hex_EncodeToString pcr7"
              let ?vs = "map snd (range_order sy 1 luksVolumes)"
              have pre: "?tr6 = preamble osName osVersion luksVolumes ts content ukiCert"
                using ts content by (simp add: preamble_def)
              obtain r7 tr7 where re: "reenrollVolumes sy ?vs pw ?s ?tr6 = (r7, tr7)"
                by (cases "reenrollVolumes sy ?vs pw ?s ?tr6")
              from reenrollVolumes_shape [OF re]
              show ?thesis
              proof
                assume ok: "r7 = None \<and> tr7 = ?tr6 @ map (reenroll_event sy pw ?s None) ?vs"
                with run sb vols tv b pcr uki wr re have
                  "tr = tr7 @ [EvRunCommand None ''systemctl'' [''reboot''] res]"
                  by (auto simp: ForceUpdatePCRBindings_def Let_def)
                with ok pre have "tr = preamble osName osVersion luksVolumes ts content ukiCert
                    @ map (reenroll_event sy pw ?s None) ?vs
                    @ [EvRunCommand None ''systemctl'' [''reboot''] res]"
                  by simp
                with ts b content have ?late by blast
                then show ?thesis ..
              next
                assume "\<exists>err k. r7 = Some err \<and> k < length ?vs \<and>
                  tr7 = ?tr6 @ map (reenroll_event sy pw ?s None) (take k ?vs)
                        @ [reenroll_event sy pw ?s (Some err) (?vs ! k)]"
                then obtain err k where fail: "r7 = Some err" "k < length ?vs"
                  "tr7 = ?tr6 @ map (reenroll_event sy pw ?s None) (take k ?vs)
                        @ [reenroll_event sy pw ?s (Some err) (?vs ! k)]"
                  by blast
                with run sb vols tv b pcr uki wr re have "res = Some err" "tr = tr7"
                  by (auto simp: ForceUpdatePCRBindings_def Let_def)
                with fail pre have "k < length (range_order sy 1 luksVolumes) \<and> res = Some err \<and>
                    tr = preamble osName osVersion luksVolumes ts content ukiCert
                      @ map (reenroll_event sy pw ?s None) (take k ?vs)
                      @ [reenroll_event sy pw ?s (Some err) (?vs ! k)]"
                  by simp
                with ts b content have ?late by blast
                then show ?thesis ..
              qed
            qed
          qed
        qed
      qed
    qed
  qed
qed

lemma ForceUpdatePCRBindings_cases [consumes 1, case_names early failed rebooted]:
  assumes "ForceUpdatePCRBindings sy osName osVersion pw = (res, tr)"
  obtains
    (early) "\<not> list_ex is_reenroll tr" "\<not> list_ex is_reboot tr" "res \<noteq> None"
  | (failed) luksVolumes ts content pcr7 ukiCert args terr err k where
      "\<not> list_ex is_reenroll ts" "\<not> list_ex is_reboot ts"
      "EvRunCommand None ''cryptsetup'' args (Some terr) \<in> set ts"
      "64 \<le> length content" "hex_DecodeString (take 64 content) = Inr pcr7"
      "k < length (range_order sy 1 luksVolumes)" "res = Some err"
      "tr = (preamble osName osVersion luksVolumes ts content ukiCert
                @ map (reenroll_event sy pw (hex_EncodeToString pcr7) None)
                    (take k (map snd (range_order sy 1 luksVolumes))))
                @ [reenroll_event sy pw (hex_EncodeToString pcr7) (Some err)
                     (map snd (range_order sy 1 luksVolumes) ! k)]"
  | (rebooted) luksVolumes ts content pcr7 ukiCert args terr where
      "\<not> list_ex is_reenroll ts" "\<not> list_ex is_reboot ts"
      "EvRunCommand None ''cryptsetup'' args (Some terr) \<in> set ts"
      "64 \<le> length content" "hex_DecodeString (take 64 content) = Inr pcr7"
      "tr = (preamble osName osVersion luksVolumes ts content ukiCert
             @ map (reenroll_event sy pw (hex_EncodeToString pcr7) None)
                 (map snd (range_order sy 1 luksVolumes)))
             @ [EvRunCommand None ''systemctl'' [''reboot''] res]"
  using ForceUpdatePCRBindings_outcomes [OF assms]
  apply (elim disjE exE conjE)
    apply (erule (2) early)
   apply (rule failed; assumption?; simp)
  apply (rule rebooted; assumption?; simp)
  done

lemma prefix_before:
  "P @ Q = pre @ ev # post \<Longrightarrow> ev \<notin> set P \<Longrightarrow> \<exists>us. pre = P @ us \<and> Q = us @ ev # post"
  by (auto simp: append_eq_append_conv2 append_eq_Cons_conv)

lemma last_event:
  "A @ [x] = pre @ y # post \<Longrightarrow> y \<notin> set A \<Longrightarrow> post = [] \<and> y = x \<and> pre = A"
proof -
  assume eq: "A @ [x] = pre @ y # post" and y: "y \<notin> set A"
  from prefix_before [OF eq y] obtain us where us: "pre = A @ us" "[x] = us @ y # post"
    by blast
  then show ?thesis by (cases us) auto
qed

lemma preamble_no_reenroll:
  "\<not> list_ex is_reenroll ts \<Longrightarrow> is_reenroll ev \<Longrightarrow>
     ev \<notin> set (preamble osName osVersion luksVolumes ts content ukiCert)"
  by (auto simp: preamble_def list_ex_iff)

lemma preamble_no_reboot:
  "\<not> list_ex is_reboot ts \<Longrightarrow> is_reboot ev \<Longrightarrow>
     ev \<notin> set (preamble osName osVersion luksVolumes ts content ukiCert)"
  by (auto simp: preamble_def list_ex_iff)

lemma failed_not_among_enrolled:
  "EvRunCommand e cmd args (Some err) \<notin> set (map (reenroll_event sy pw s None) vs)"
  by (auto simp: reenroll_event_def)

lemma reboot_not_among_enrolled:
  "is_reboot ev \<Longrightarrow> ev \<notin> set (map (reenroll_event sy pw s r) vs)"
  by auto

lemma in_set_mapI: "x \<in> set xs \<Longrightarrow> f x \<in> set (map f xs)"
  by simp

lemma range_ok_set: "range_ok sy \<Longrightarrow> set (range_order sy k m) = set m"
  by (metis range_ok_def set_mset_mset)

lemma reenroll_prefix_origin:
  assumes k: "k < length vs"
    and q: "q \<in> set (map (reenroll_event sy pw s None) (take k vs)
            @ [reenroll_event sy pw s (Some err) (vs ! k)])"
  shows "\<exists>r volume. volume \<in> set vs \<and> q = reenroll_event sy pw s r volume"
proof -
  from q consider v where "v \<in> set (take k vs)" "q = reenroll_event sy pw s None v"
    | "q = reenroll_event sy pw s (Some err) (vs ! k)"
    by auto
  then show ?thesis
  proof cases
    case 1
    then have "v \<in> set vs" by (auto dest: in_set_takeD)
    with 1 show ?thesis by blast
  next
    case 2
    with nth_mem [OF k] show ?thesis by blast
  qed
qed

lemma range_ok_demo: "range_ok (demo_sys locked broken)"
  by (simp add: range_ok_def demo_sys_def)

lemma range_ok_update [simp]:
  "range_ok (sy\<lparr>Enabled := f\<rparr>) = range_ok sy"
  "range_ok (sy\<lparr>GetLUKSVolumePartitions := g\<rparr>) = range_ok sy"
  by (simp_all add: range_ok_def)

subsection \<open>C3: no destructive step before its preconditions\<close>

text \<open>
  C3. Take any run of \<open>ForceUpdatePCRBindings\<close>, with result \<open>res\<close> and trace \<open>tr\<close>.
  \<^item> Before every re-enrollment event of the trace there are: the Secure Boot check with
    result enabled, the enumeration of the volumes, an unlock test that found a volume in
    need of repair (the outcome with which the precondition stage passes), the successful
    read of PCR7 (64 bytes that decode as hexadecimal), the successful extraction of the
    UKI certificate and the successful write of the key file; and the re-enrollment is of
    an enumerated volume, bound to the PCR7 value read.
  \<^item> A failed re-enrollment is the last event of the trace, and its error is the result:
    no further volume is touched and no reboot is requested.
  \<^item> A reboot request is the last event of the trace, every re-enrollment before it
    succeeded, and every enumerated volume has been re-enrolled before it.
\<close>

theorem ForceUpdatePCRBindings_order:
  assumes ok: "range_ok sy"
    and run: "ForceUpdatePCRBindings sy osName osVersion luksPassword = (res, tr)"
  shows "(\<forall>pre ev post. tr = pre @ ev # post \<and> is_reenroll ev \<longrightarrow>
           (\<exists>luksVolumes args err content pcr7 ukiCert r volume.
              EvEnabled (Inr True) \<in> set pre \<and>
              EvGetLUKSVolumePartitions (Inr luksVolumes) \<in> set pre \<and>
              EvRunCommand None ''cryptsetup'' args (Some err) \<in> set pre \<and>
              EvOpen pcr7_path (Inr content) \<in> set pre \<and>
              64 \<le> length content \<and> hex_DecodeString (take 64 content) = Inr pcr7 \<and>
              EvGetPublicKeyFromUKI (uki_path osName osVersion) (Inr ukiCert) \<in> set pre \<and>
              EvWriteFile key_path ukiCert 384 None \<in> set pre \<and>
              volume \<in> snd ` set luksVolumes \<and>
              ev = reenroll_event sy luksPassword (hex_EncodeToString pcr7) r volume)) \<and>
         (\<forall>pre e args err post.
            tr = pre @ EvRunCommand e ''systemd-cryptenroll'' args (Some err) # post \<longrightarrow>
              post = [] \<and> res = Some err) \<and>
         (\<forall>pre ev post. tr = pre @ ev # post \<and> is_reboot ev \<longrightarrow>
            post = [] \<and>
            (\<forall>e args r. EvRunCommand e ''systemd-cryptenroll'' args r \<in> set pre \<longrightarrow> r = None) \<and>
            (\<exists>luksVolumes pcr7String.
               EvGetLUKSVolumePartitions (Inr luksVolumes) \<in> set pre \<and>
               (\<forall>volume\<in>snd ` set luksVolumes.
                  reenroll_event sy luksPassword pcr7String None volume \<in> set pre)))"
proof (intro conjI allI impI)
  fix pre ev post
  assume "tr = pre @ ev # post \<and> is_reenroll ev"
  then have tr: "tr = pre @ ev # post" and ev: "is_reenroll ev" by simp_all
  have ex: "list_ex is_reenroll tr" unfolding tr using ev by (simp add: list_ex_iff)
  let ?goal = "\<exists>luksVolumes args err content pcr7 ukiCert r volume.
      EvEnabled (Inr True) \<in> set pre \<and>
      EvGetLUKSVolumePartitions (Inr luksVolumes) \<in> set pre \<and>
      EvRunCommand None ''cryptsetup'' args (Some err) \<in> set pre \<and>
      EvOpen pcr7_path (Inr content) \<in> set pre \<and>
      64 \<le> length content \<and> hex_DecodeString (take 64 content) = Inr pcr7 \<and>
      EvGetPublicKeyFromUKI (uki_path osName osVersion) (Inr ukiCert) \<in> set pre \<and>
      EvWriteFile key_path ukiCert 384 None \<in> set pre \<and>
      volume \<in> snd ` set luksVolumes \<and>
      ev = reenroll_event sy luksPassword (hex_EncodeToString pcr7) r volume"
  have step: ?goal
    if ts: "\<not> list_ex is_reenroll ts"
      "EvRunCommand None ''cryptsetup'' args (Some terr) \<in> set ts"
      and content: "64 \<le> length content" "hex_DecodeString (take 64 content) = Inr pcr7"
      and shape: "tr = preamble osName osVersion luksVolumes ts content ukiCert @ Q"
      and origin: "\<And>q. q \<in> set Q \<Longrightarrow> is_reenroll q \<Longrightarrow>
         \<exists>r volume. volume \<in> set (map snd (range_order sy 1 luksVolumes)) \<and>
            q = reenroll_event sy luksPassword (hex_EncodeToString pcr7) r volume"
    for luksVolumes ts content pcr7 ukiCert args terr Q
  proof -
    let ?P = "preamble osName osVersion luksVolumes ts content ukiCert"
    have "?P @ Q = pre @ ev # post" using shape tr by simp
    from prefix_before [OF this preamble_no_reenroll [OF ts(1) ev]]
    obtain us where us: "pre = ?P @ us" "Q = us @ ev # post" by blast
    from us(2) have "ev \<in> set Q" by simp
    from origin [OF this ev] obtain r volume where
      v: "volume \<in> set (map snd (range_order sy 1 luksVolumes))"
        "ev = reenroll_event sy luksPassword (hex_EncodeToString pcr7) r volume"
      by blast
    from v(1) have v': "volume \<in> snd ` set luksVolumes"
      by (simp add: range_ok_set [OF ok])
    have mem: "EvEnabled (Inr True) \<in> set pre"
      "EvGetLUKSVolumePartitions (Inr luksVolumes) \<in> set pre"
      "EvRunCommand None ''cryptsetup'' args (Some terr) \<in> set pre"
      "EvOpen pcr7_path (Inr content) \<in> set pre"
      "EvGetPublicKeyFromUKI (uki_path osName osVersion) (Inr ukiCert) \<in> set pre"
      "EvWriteFile key_path ukiCert 384 None \<in> set pre"
      using ts(2) by (simp_all add: us(1) preamble_def)
    from mem content v' v(2) show ?thesis by blast
  qed
  from run show ?goal
  proof (cases rule: ForceUpdatePCRBindings_cases)
    case early
    with ex show ?thesis by simp
  next
    case (failed luksVolumes ts content pcr7 ukiCert args terr err k)
    let ?vs = "map snd (range_order sy 1 luksVolumes)"
    from failed(6) have k: "k < length ?vs" by simp
    show ?thesis
    proof (rule step [OF failed(1) failed(3) failed(4) failed(5)])
      show "tr = preamble osName osVersion luksVolumes ts content ukiCert
          @ (map (reenroll_event sy luksPassword (hex_EncodeToString pcr7) None) (take k ?vs)
          @ [reenroll_event sy luksPassword (hex_EncodeToString pcr7) (Some err) (?vs ! k)])"
        using failed(8) by simp
    next
      fix q
      assume "q \<in> set (map (reenroll_event sy luksPassword (hex_EncodeToString pcr7) None)
            (take k ?vs)
          @ [reenroll_event sy luksPassword (hex_EncodeToString pcr7) (Some err) (?vs ! k)])"
      from reenroll_prefix_origin [OF k this]
      show "\<exists>r volume. volume \<in> set ?vs \<and>
          q = reenroll_event sy luksPassword (hex_EncodeToString pcr7) r volume" .
    qed
  next
    case (rebooted luksVolumes ts content pcr7 ukiCert args terr)
    let ?vs = "map snd (range_order sy 1 luksVolumes)"
    show ?thesis
    proof (rule step [OF rebooted(1) rebooted(3) rebooted(4) rebooted(5)])
      show "tr = preamble osName osVersion luksVolumes ts content ukiCert
          @ (map (reenroll_event sy luksPassword (hex_EncodeToString pcr7) None) ?vs
          @ [EvRunCommand None ''systemctl'' [''reboot''] res])"
        using rebooted(6) by simp
    next
      fix q
      assume q: "q \<in> set (map (reenroll_event sy luksPassword (hex_EncodeToString pcr7) None) ?vs
          @ [EvRunCommand None ''systemctl'' [''reboot''] res])"
        and rq: "is_reenroll q"
      from q rq have "q \<in> set (map (reenroll_event sy luksPassword (hex_EncodeToString pcr7) None) ?vs)"
        by auto
      then show "\<exists>r volume. volume \<in> set ?vs \<and>
          q = reenroll_event sy luksPassword (hex_EncodeToString pcr7) r volume"
        by auto
    qed
  qed
next
  fix pre e args err post
  assume tr: "tr = pre @ EvRunCommand e ''systemd-cryptenroll'' args (Some err) # post"
  let ?ev = "EvRunCommand e ''systemd-cryptenroll'' args (Some err)"
  have ev: "is_reenroll ?ev" by simp
  have ex: "list_ex is_reenroll tr" unfolding tr by (simp add: list_ex_iff)
  from run have "post = [] \<and> res = Some err"
  proof (cases rule: ForceUpdatePCRBindings_cases)
    case early
    with ex show ?thesis by simp
  next
    case (failed luksVolumes ts content pcr7 ukiCert args' terr err' k)
    let ?s = "hex_EncodeToString pcr7"
    let ?vs = "map snd (range_order sy 1 luksVolumes)"
    let ?A = "preamble osName osVersion luksVolumes ts content ukiCert
        @ map (reenroll_event sy luksPassword ?s None) (take k ?vs)"
    let ?x = "reenroll_event sy luksPassword ?s (Some err') (?vs ! k)"
    have notin: "?ev \<notin> set ?A"
      unfolding set_append Un_iff de_Morgan_disj
      using preamble_no_reenroll [OF failed(1) ev] failed_not_among_enrolled by blast
    have "?A @ [?x] = pre @ ?ev # post"
      using failed(8) tr by simp
    from last_event [OF this notin] have "post = []" "?ev = ?x" by simp_all
    with failed(7) show ?thesis by (simp add: reenroll_event_def)
  next
    case (rebooted luksVolumes ts content pcr7 ukiCert args' terr)
    let ?s = "hex_EncodeToString pcr7"
    let ?vs = "map snd (range_order sy 1 luksVolumes)"
    let ?A = "preamble osName osVersion luksVolumes ts content ukiCert
        @ map (reenroll_event sy luksPassword ?s None) ?vs"
    have notin: "?ev \<notin> set ?A"
      unfolding set_append Un_iff de_Morgan_disj
      using preamble_no_reenroll [OF rebooted(1) ev] failed_not_among_enrolled by blast
    have "?A @ [EvRunCommand None ''systemctl'' [''reboot''] res] = pre @ ?ev # post"
      using rebooted(6) tr by simp
    from last_event [OF this notin] have "?ev = EvRunCommand None ''systemctl'' [''reboot''] res"
      by simp
    then show ?thesis by simp
  qed
  then show "post = []" and "res = Some err" by simp_all
next
  fix pre ev post
  assume "tr = pre @ ev # post \<and> is_reboot ev"
  then have tr: "tr = pre @ ev # post" and ev: "is_reboot ev" by simp_all
  have ex: "list_ex is_reboot tr" unfolding tr using ev by (simp add: list_ex_iff)
  from run have "post = [] \<and>
    (\<forall>e args r. EvRunCommand e ''systemd-cryptenroll'' args r \<in> set pre \<longrightarrow> r = None) \<and>
    (\<exists>luksVolumes pcr7String.
       EvGetLUKSVolumePartitions (Inr luksVolumes) \<in> set pre \<and>
       (\<forall>volume\<in>snd ` set luksVolumes.
          reenroll_event sy luksPassword pcr7String None volume \<in> set pre))"
  proof (cases rule: ForceUpdatePCRBindings_cases)
    case early
    with ex show ?thesis by simp
  next
    case (failed luksVolumes ts content pcr7 ukiCert args' terr err' k)
    let ?s = "hex_EncodeToString pcr7"
    let ?vs = "map snd (range_order sy 1 luksVolumes)"
    let ?A = "preamble osName osVersion luksVolumes ts content ukiCert
        @ map (reenroll_event sy luksPassword ?s None) (take k ?vs)"
    let ?x = "reenroll_event sy luksPassword ?s (Some err') (?vs ! k)"
    have notin: "ev \<notin> set ?A"
      unfolding set_append Un_iff de_Morgan_disj
      using preamble_no_reboot [OF failed(2) ev] reboot_not_among_enrolled [OF ev] by blast
    have "?A @ [?x] = pre @ ev # post"
      using failed(8) tr by simp
    from last_event [OF this notin] have "ev = ?x" by simp
    with ev show ?thesis by simp
  next
    case (rebooted luksVolumes ts content pcr7 ukiCert args' terr)
    let ?s = "hex_EncodeToString pcr7"
    let ?vs = "map snd (range_order sy 1 luksVolumes)"
    let ?A = "preamble osName osVersion luksVolumes ts content ukiCert
        @ map (reenroll_event sy luksPassword ?s None) ?vs"
    have notin: "ev \<notin> set ?A"
      unfolding set_append Un_iff de_Morgan_disj
      using preamble_no_reboot [OF rebooted(2) ev] reboot_not_among_enrolled [OF ev] by blast
    have "?A @ [EvRunCommand None ''systemctl'' [''reboot''] res] = pre @ ev # post"
      using rebooted(6) tr by simp
    from last_event [OF this notin] have post: "post = []" and pre: "pre = ?A"
      by simp_all
    have none: "r = None" if "EvRunCommand e ''systemd-cryptenroll'' args r \<in> set pre" for e args r
    proof -
      have "is_reenroll (EvRunCommand e ''systemd-cryptenroll'' args r)" by simp
      from preamble_no_reenroll [OF rebooted(1) this] that
      have "EvRunCommand e ''systemd-cryptenroll'' args r
          \<in> set (map (reenroll_event sy luksPassword ?s None) ?vs)"
        by (simp add: pre)
      then show ?thesis by (auto simp: reenroll_event_def)
    qed
    have all: "\<forall>volume\<in>snd ` set luksVolumes.
        reenroll_event sy luksPassword ?s None volume \<in> set pre"
    proof
      fix volume
      assume "volume \<in> snd ` set luksVolumes"
      then have "volume \<in> set ?vs" by (simp add: range_ok_set [OF ok])
      from in_set_mapI [OF this]
      show "reenroll_event sy luksPassword ?s None volume \<in> set pre"
        unfolding pre set_append Un_iff by blast
    qed
    have "EvGetLUKSVolumePartitions (Inr luksVolumes) \<in> set pre"
      by (simp add: pre preamble_def)
    with post none all show ?thesis by blast
  qed
  then show "post = []"
    and "\<exists>luksVolumes pcr7String.
       EvGetLUKSVolumePartitions (Inr luksVolumes) \<in> set pre \<and>
       (\<forall>volume\<in>snd ` set luksVolumes.
          reenroll_event sy luksPassword pcr7String None volume \<in> set pre)"
    and "\<And>e args r. EvRunCommand e ''systemd-cryptenroll'' args r \<in> set pre \<Longrightarrow> r = None"
    by blast+
qed

theorem ForceUpdatePCRBindings_order_witness:
  "fst recovery_run = None \<and> length (snd recovery_run) = 9 \<and>
   (\<exists>luksVolumes args err content pcr7 ukiCert r volume.
      EvEnabled (Inr True) \<in> set (take 6 (snd recovery_run)) \<and>
      EvGetLUKSVolumePartitions (Inr luksVolumes) \<in> set (take 6 (snd recovery_run)) \<and>
      EvRunCommand None ''cryptsetup'' args (Some err) \<in> set (take 6 (snd recovery_run)) \<and>
      EvOpen pcr7_path (Inr content) \<in> set (take 6 (snd recovery_run)) \<and>
      64 \<le> length content \<and> hex_DecodeString (take 64 content) = Inr pcr7 \<and>
      EvGetPublicKeyFromUKI (uki_path ''IncusOS'' ''202510310000'') (Inr ukiCert)
        \<in> set (take 6 (snd recovery_run)) \<and>
      EvWriteFile key_path ukiCert 384 None \<in> set (take 6 (snd recovery_run)) \<and>
      volume \<in> snd ` set luksVolumes \<and>
      snd recovery_run ! 6 =
        reenroll_event (demo_sys [''root''] []) ''hunter2'' (hex_EncodeToString pcr7) r volume) \<and>
   (\<exists>luksVolumes pcr7String.
      EvGetLUKSVolumePartitions (Inr luksVolumes) \<in> set (take 8 (snd recovery_run)) \<and>
      (\<forall>volume\<in>snd ` set luksVolumes.
         reenroll_event (demo_sys [''root''] []) ''hunter2'' pcr7String None volume
           \<in> set (take 8 (snd recovery_run)))) \<and>
   fst failed_run = Some (ExternalError ''Failed to enroll'') \<and>
   length (snd failed_run) = 8 \<and> drop 8 (snd failed_run) = []"
proof -
  have run1: "ForceUpdatePCRBindings (demo_sys [''root''] []) ''IncusOS'' ''202510310000''
      ''hunter2'' = (fst recovery_run, snd recovery_run)"
    by (simp add: recovery_run_def)
  have run2: "ForceUpdatePCRBindings (demo_sys [''swap''] [''/dev/sda3'']) ''IncusOS''
      ''202510310000'' ''hunter2'' = (fst failed_run, snd failed_run)"
    by (simp add: failed_run_def)
  have res1: "fst recovery_run = None" by code_simp
  have len1: "length (snd recovery_run) = 9" by code_simp
  have len2: "length (snd failed_run) = 8" by code_simp
  have sp6: "snd recovery_run =
      take 6 (snd recovery_run) @ snd recovery_run ! 6 # drop (Suc 6) (snd recovery_run)"
    by (rule id_take_nth_drop) (simp add: len1)
  have sp8: "snd recovery_run =
      take 8 (snd recovery_run) @ snd recovery_run ! 8 # drop (Suc 8) (snd recovery_run)"
    by (rule id_take_nth_drop) (simp add: len1)
  have sp7: "snd failed_run =
      take 7 (snd failed_run) @ snd failed_run ! 7 # drop (Suc 7) (snd failed_run)"
    by (rule id_take_nth_drop) (simp add: len2)
  have re6: "is_reenroll (snd recovery_run ! 6)" by code_simp
  have rb8: "is_reboot (snd recovery_run ! 8)" by code_simp
  have ev7: "snd failed_run ! 7 =
      EvRunCommand (Some [''PATH=/usr/bin'', ''PASSWORD=hunter2'']) ''systemd-cryptenroll''
        (cryptenroll_args
           ''27939d6f9cdfc1eef80aca808f28c8d2522da4f67b9536135ad4e439402a4ae4'' ''/dev/sda3'')
        (Some (ExternalError ''Failed to enroll''))"
    by code_simp
  note T1 = ForceUpdatePCRBindings_order [OF range_ok_demo run1]
  note T2 = ForceUpdatePCRBindings_order [OF range_ok_demo run2]
  note A = T1 [THEN conjunct1, rule_format, OF conjI [OF sp6 re6]]
  note C = T1 [THEN conjunct2, THEN conjunct2, rule_format, OF conjI [OF sp8 rb8]]
  note B = T2 [THEN conjunct2, THEN conjunct1, rule_format, OF sp7 [unfolded ev7]]
  from B have "fst failed_run = Some (ExternalError ''Failed to enroll'')"
    "drop 8 (snd failed_run) = []"
    by simp_all
  with res1 len1 len2 A C show ?thesis by blast
qed

subsection \<open>C4: the two refusals\<close>

text \<open>
  C4. If Secure Boot is not enabled, \<open>ForceUpdatePCRBindings\<close> fails with
  \<open>SecureBootDisabled\<close> after the single event of that check. If Secure Boot is enabled and
  every enumerated volume passes the unlock test, whatever was done before, it fails with
  \<open>NoRecoveryNeeded\<close> after the enumeration and the tests; this holds for every set of
  volumes, the empty one included. In both cases the trace has no re-enrollment event.
\<close>

theorem ForceUpdatePCRBindings_refusals:
  "(Enabled sy [] = Inr False \<longrightarrow>
      ForceUpdatePCRBindings sy osName osVersion luksPassword =
        (Some SecureBootDisabled, [EvEnabled (Inr False)]) \<and>
      \<not> list_ex is_reenroll (snd (ForceUpdatePCRBindings sy osName osVersion luksPassword))) \<and>
   (range_ok sy \<and> Enabled sy [] = Inr True \<and>
    GetLUKSVolumePartitions sy [EvEnabled (Inr True)] = Inr luksVolumes \<and>
    (\<forall>tr. \<forall>(volumeName, volumeDev)\<in>set luksVolumes.
       RunCommand sy tr None ''cryptsetup''
         [''luksOpen'', ''--test-passphrase'', volumeDev, volumeName] = None) \<longrightarrow>
      ForceUpdatePCRBindings sy osName osVersion luksPassword =
        (Some NoRecoveryNeeded,
         [EvEnabled (Inr True), EvGetLUKSVolumePartitions (Inr luksVolumes)]
         @ map test_event (range_order sy 0 luksVolumes)) \<and>
      \<not> list_ex is_reenroll (snd (ForceUpdatePCRBindings sy osName osVersion luksPassword)))"
proof (intro conjI impI)
  assume "Enabled sy [] = Inr False"
  then show run: "ForceUpdatePCRBindings sy osName osVersion luksPassword =
      (Some SecureBootDisabled, [EvEnabled (Inr False)])"
    by (simp add: ForceUpdatePCRBindings_def)
  then show "\<not> list_ex is_reenroll (snd (ForceUpdatePCRBindings sy osName osVersion luksPassword))"
    by simp
next
  assume h: "range_ok sy \<and> Enabled sy [] = Inr True \<and>
    GetLUKSVolumePartitions sy [EvEnabled (Inr True)] = Inr luksVolumes \<and>
    (\<forall>tr. \<forall>(volumeName, volumeDev)\<in>set luksVolumes.
       RunCommand sy tr None ''cryptsetup''
         [''luksOpen'', ''--test-passphrase'', volumeDev, volumeName] = None)"
  then have "\<forall>tr. \<forall>(volumeName, volumeDev)\<in>set (range_order sy 0 luksVolumes).
       RunCommand sy tr None ''cryptsetup''
         [''luksOpen'', ''--test-passphrase'', volumeDev, volumeName] = None"
    by (simp add: range_ok_set)
  from testVolumes_all_pass' [OF this] h
  show run: "ForceUpdatePCRBindings sy osName osVersion luksPassword =
      (Some NoRecoveryNeeded,
       [EvEnabled (Inr True), EvGetLUKSVolumePartitions (Inr luksVolumes)]
       @ map test_event (range_order sy 0 luksVolumes))"
    by (simp add: ForceUpdatePCRBindings_def)
  show "\<not> list_ex is_reenroll (snd (ForceUpdatePCRBindings sy osName osVersion luksPassword))"
    using no_reenroll_tests [of "range_order sy 0 luksVolumes"] by (simp add: run)
qed

theorem ForceUpdatePCRBindings_refusals_witness:
  "ForceUpdatePCRBindings ((demo_sys [''root''] [])\<lparr>Enabled := (\<lambda>tr. Inr False)\<rparr>)
     ''IncusOS'' ''202510310000'' ''hunter2'' =
     (Some SecureBootDisabled, [EvEnabled (Inr False)]) \<and>
   ForceUpdatePCRBindings (demo_sys [] []) ''IncusOS'' ''202510310000'' ''hunter2'' =
     (Some NoRecoveryNeeded,
      [EvEnabled (Inr True),
       EvGetLUKSVolumePartitions (Inr [(''root'', ''/dev/sda2''), (''swap'', ''/dev/sda3'')]),
       test_event (''root'', ''/dev/sda2''), test_event (''swap'', ''/dev/sda3'')]) \<and>
   ForceUpdatePCRBindings ((demo_sys [''root''] [])\<lparr>GetLUKSVolumePartitions := (\<lambda>tr. Inr [])\<rparr>)
     ''IncusOS'' ''202510310000'' ''hunter2'' =
     (Some NoRecoveryNeeded, [EvEnabled (Inr True), EvGetLUKSVolumePartitions (Inr [])])"
proof -
  let ?off = "(demo_sys [''root''] [])\<lparr>Enabled := (\<lambda>tr. Inr False)\<rparr>"
  let ?none = "(demo_sys [''root''] [])\<lparr>GetLUKSVolumePartitions := (\<lambda>tr. Inr [])\<rparr>"
  let ?vols = "[(''root'', ''/dev/sda2''), (''swap'', ''/dev/sda3'')]"
  have a: "Enabled ?off [] = Inr False" by simp
  have b: "range_ok (demo_sys [] []) \<and> Enabled (demo_sys [] []) [] = Inr True \<and>
    GetLUKSVolumePartitions (demo_sys [] []) [EvEnabled (Inr True)] = Inr ?vols \<and>
    (\<forall>tr. \<forall>(volumeName, volumeDev)\<in>set ?vols.
       RunCommand (demo_sys [] []) tr None ''cryptsetup''
         [''luksOpen'', ''--test-passphrase'', volumeDev, volumeName] = None)"
    by (simp add: range_ok_demo) (simp add: demo_sys_def)
  have c: "range_ok ?none \<and> Enabled ?none [] = Inr True \<and>
    GetLUKSVolumePartitions ?none [EvEnabled (Inr True)] = Inr [] \<and>
    (\<forall>tr. \<forall>(volumeName, volumeDev)\<in>set [].
       RunCommand ?none tr None ''cryptsetup''
         [''luksOpen'', ''--test-passphrase'', volumeDev, volumeName] = None)"
    by (simp add: range_ok_demo) (simp add: demo_sys_def)
  have o: "range_order (demo_sys locked broken) 0 m = m" for locked broken m
    by (simp add: demo_sys_def)
  from ForceUpdatePCRBindings_refusals
    [of ?off "''IncusOS''" "''202510310000''" "''hunter2''", THEN conjunct1] a
  have "ForceUpdatePCRBindings ?off ''IncusOS'' ''202510310000'' ''hunter2'' =
     (Some SecureBootDisabled, [EvEnabled (Inr False)])"
    by blast
  moreover from ForceUpdatePCRBindings_refusals
    [of "demo_sys [] []" "''IncusOS''" "''202510310000''" "''hunter2''" ?vols,
      THEN conjunct2] b
  have "ForceUpdatePCRBindings (demo_sys [] []) ''IncusOS'' ''202510310000'' ''hunter2'' =
     (Some NoRecoveryNeeded,
      [EvEnabled (Inr True), EvGetLUKSVolumePartitions (Inr ?vols)]
      @ map test_event (range_order (demo_sys [] []) 0 ?vols))"
    by blast
  moreover from ForceUpdatePCRBindings_refusals
    [of ?none "''IncusOS''" "''202510310000''" "''hunter2''" "[]", THEN conjunct2] c
  have "ForceUpdatePCRBindings ?none ''IncusOS'' ''202510310000'' ''hunter2'' =
     (Some NoRecoveryNeeded,
      [EvEnabled (Inr True), EvGetLUKSVolumePartitions (Inr [])]
      @ map test_event (range_order ?none 0 []))"
    by blast
  ultimately show ?thesis by (simp add: o)
qed

end
